theory Spec2Isabelle
  imports Main "HOL-Library.Sublist" "HOL-Library.Multiset"
begin

section \<open>Data model of cacheHttpClient.ts\<close>

text \<open>
  A JavaScript \<^verbatim>\<open>Date\<close> is represented by the number its \<^verbatim>\<open>getTime()\<close> returns
  (milliseconds since the epoch); an invalid date, whose time is \<^verbatim>\<open>NaN\<close>, has no
  representation. An optional property (\<^verbatim>\<open>Key?: string\<close>) is an \<open>option\<close>: \<open>None\<close> is
  \<^verbatim>\<open>undefined\<close>.
\<close>

type_synonym Date = int

text \<open>
  \<^verbatim>\<open>interface _content { Key?: string; LastModified?: Date }\<close>. The objects of a
  \<^verbatim>\<open>ListObjectsV2\<close> page (\<^verbatim>\<open>_Object\<close>) are read through the same two properties only.
\<close>

record content =
  Key :: "string option"
  LastModified :: "Date option"

record ListObjectsV2CommandInput =
  Bucket :: string
  ContinuationToken :: "string option"

record ListObjectsV2CommandOutput =
  Contents :: "content list option"
  IsTruncated :: "bool option"
  NextContinuationToken :: "string option"

record ArtifactCacheEntry =
  cacheKey :: "string option"
  scope :: "string option"
  cacheVersion :: "string option"
  creationTime :: "string option"
  archiveLocation :: "string option"

text \<open>Every \<^verbatim>\<open>throw new Error(...)\<close> of the module is one constructor.\<close>

datatype error =
    ErrorFromS3 string
  | CannotFoundObject string
  | CacheServiceRespondedWith int
  | CacheNotFound
  | CacheServiceUrlNotFound
  | AzureNeedsSignedUrl
  | ExpectedValueToBeDefined string
  | CacheUploadFailed string
  | UploadChunkRespondedWith "int option"
  | CommitRespondedWith int
  | Thrown string

section \<open>Restore-key search\<close>

text \<open>
  The comparator given to \<^verbatim>\<open>matchPrefix.sort\<close>: \<open>0\<close> when either side has no
  \<^verbatim>\<open>LastModified\<close>, otherwise newest first.
\<close>

definition compareLastModified :: "content \<Rightarrow> content \<Rightarrow> int" where
  "compareLastModified i j =
     (case LastModified i of
        None \<Rightarrow> 0
      | Some a \<Rightarrow>
          (case LastModified j of
             None \<Rightarrow> 0
           | Some b \<Rightarrow>
               if a = b then 0
               else if a > b then - 1
               else if a < b then 1
               else 0))"

text \<open>
  \<^verbatim>\<open>Array.prototype.sort\<close> with a comparator. ECMAScript fixes its result only for a
  consistent comparator: then the array is sorted and elements that compare \<open>0\<close> keep
  their order. \<open>stable_sort\<close> computes that result, by insertion from the right, which
  places an element before the first later element it is not greater than. For any
  other comparator the result is a permutation in an order the engine chooses.
\<close>

fun sort_insert :: "('a \<Rightarrow> 'a \<Rightarrow> int) \<Rightarrow> 'a \<Rightarrow> 'a list \<Rightarrow> 'a list" where
  "sort_insert cmp x [] = [x]"
| "sort_insert cmp x (y # ys) =
     (if cmp x y \<le> 0 then x # y # ys else y # sort_insert cmp x ys)"

fun stable_sort :: "('a \<Rightarrow> 'a \<Rightarrow> int) \<Rightarrow> 'a list \<Rightarrow> 'a list" where
  "stable_sort cmp [] = []"
| "stable_sort cmp (x # xs) = sort_insert cmp x (stable_sort cmp xs)"

text \<open>
  A comparator is consistent on a set of elements when comparing as equal is
  reflexive, symmetric and transitive, less and greater are transitive, and less one
  way is greater the other way.
\<close>

definition consistent :: "('a \<Rightarrow> 'a \<Rightarrow> int) \<Rightarrow> 'a set \<Rightarrow> bool" where
  "consistent cmp S \<longleftrightarrow>
     (\<forall>a\<in>S. cmp a a = 0) \<and>
     (\<forall>a\<in>S. \<forall>b\<in>S.
        (cmp a b = 0 \<longrightarrow> cmp b a = 0) \<and> (cmp a b < 0 \<longrightarrow> cmp b a > 0) \<and>
        (cmp a b > 0 \<longrightarrow> cmp b a < 0)) \<and>
     (\<forall>a\<in>S. \<forall>b\<in>S. \<forall>c\<in>S.
        (cmp a b = 0 \<and> cmp b c = 0 \<longrightarrow> cmp a c = 0) \<and>
        (cmp a b < 0 \<and> cmp b c < 0 \<longrightarrow> cmp a c < 0) \<and>
        (cmp a b > 0 \<and> cmp b c > 0 \<longrightarrow> cmp a c > 0))"

text \<open>
  The sort of an engine is any function that returns a permutation of the array and,
  for a comparator consistent on the elements of the array, the stable sorted one.
  The module is modelled over every such function: \<open>array_sort srt cmp xs\<close> is
  \<^verbatim>\<open>xs.sort(cmp)\<close> in the engine \<open>srt\<close>. \<open>insertionSort\<close> is the engine that sorts by
  \<open>stable_sort\<close> whatever the comparator.
\<close>

typedef 'a sorter =
  "{f :: ('a \<Rightarrow> 'a \<Rightarrow> int) \<Rightarrow> 'a list \<Rightarrow> 'a list.
      \<forall>cmp xs. mset (f cmp xs) = mset xs \<and>
               (consistent cmp (set xs) \<longrightarrow> f cmp xs = stable_sort cmp xs)}"
proof -
  have ins: "mset (sort_insert cmp x ys) = add_mset x (mset ys)"
    for cmp :: "'a \<Rightarrow> 'a \<Rightarrow> int" and x ys
    by (induction ys) auto
  have "mset (stable_sort cmp xs) = mset xs" for cmp :: "'a \<Rightarrow> 'a \<Rightarrow> int" and xs
    by (induction xs) (auto simp: ins)
  then show ?thesis by (intro exI [of _ stable_sort]) simp
qed

setup_lifting type_definition_sorter

lift_definition array_sort :: "'a sorter \<Rightarrow> ('a \<Rightarrow> 'a \<Rightarrow> int) \<Rightarrow> 'a list \<Rightarrow> 'a list"
  is "\<lambda>f. f" .

lift_definition insertionSort :: "'a sorter" is stable_sort
proof (intro allI conjI impI)
  fix cmp :: "'a \<Rightarrow> 'a \<Rightarrow> int" and xs :: "'a list"
  have ins: "mset (sort_insert cmp x ys) = add_mset x (mset ys)" for x ys
    by (induction ys) auto
  show "mset (stable_sort cmp xs) = mset xs"
    by (induction xs) (auto simp: ins)
  show "stable_sort cmp xs = stable_sort cmp xs" ..
qed

text \<open>\<^verbatim>\<open>entry.Key?.startsWith(notPrimaryKey)\<close>: \<^verbatim>\<open>undefined\<close> (falsy) without a key.\<close>

definition startsWith :: "string option \<Rightarrow> string \<Rightarrow> bool" where
  "startsWith k p = (case k of None \<Rightarrow> False | Some s \<Rightarrow> prefix p s)"

text \<open>
  The \<^verbatim>\<open>for (const entry of entries)\<close> loop of \<^verbatim>\<open>_searchRestoreKeyEntry\<close>, with
  \<open>matchPrefix\<close> as accumulator: \<open>Inl\<close> is the early return at an exact match, \<open>Inr\<close> the
  prefix matches collected when the loop ends.
\<close>

fun scanEntries :: "string \<Rightarrow> content list \<Rightarrow> content list \<Rightarrow> content + content list" where
  "scanEntries notPrimaryKey [] matchPrefix = Inr matchPrefix"
| "scanEntries notPrimaryKey (entry # entries) matchPrefix =
     (if Key entry = Some notPrimaryKey then Inl entry
      else if startsWith (Key entry) notPrimaryKey
           then scanEntries notPrimaryKey entries (matchPrefix @ [entry])
           else scanEntries notPrimaryKey entries matchPrefix)"

text \<open>\<^verbatim>\<open>_searchRestoreKeyEntry\<close> (the leading underscore is not an Isabelle name).\<close>

definition searchRestoreKeyEntry_one ::
  "content sorter \<Rightarrow> string \<Rightarrow> content list \<Rightarrow> content option" where
  "searchRestoreKeyEntry_one srt notPrimaryKey entries =
     (case scanEntries notPrimaryKey entries [] of
        Inl entry \<Rightarrow> Some entry
      | Inr matchPrefix \<Rightarrow>
          (case array_sort srt compareLastModified matchPrefix of
             [] \<Rightarrow> None
           | newest # _ \<Rightarrow> Some newest))"

fun searchRestoreKeyEntry ::
  "content sorter \<Rightarrow> string list \<Rightarrow> content list \<Rightarrow> content option" where
  "searchRestoreKeyEntry srt [] entries = None"
| "searchRestoreKeyEntry srt (k # ks) entries =
     (case searchRestoreKeyEntry_one srt k entries of
        Some found \<Rightarrow> Some found
      | None \<Rightarrow> searchRestoreKeyEntry srt ks entries)"

section \<open>Lookup in the object store\<close>

text \<open>
  \<^verbatim>\<open>found && found.LastModified\<close> for
  \<^verbatim>\<open>found = response.Contents.find(content => content.Key === primaryKey)\<close>: the
  timestamp of the first object of the page under the primary key, when it has one.
  \<open>primaryKey\<close> is \<^verbatim>\<open>keys[0]\<close>, \<^verbatim>\<open>undefined\<close> for an empty key list.
\<close>

definition foundLastModified :: "string option \<Rightarrow> content list \<Rightarrow> Date option" where
  "foundLastModified primaryKey cs =
     (case find (\<lambda>c. Key c = primaryKey) cs of
        None \<Rightarrow> None
      | Some found \<Rightarrow> LastModified found)"

text \<open>
  Lines 158 to 169: the fallback over the accumulated listing once the loop is left by
  \<^verbatim>\<open>break\<close>. \<open>toString\<close> stands for \<^verbatim>\<open>Date.prototype.toString\<close>, \<open>srt\<close> for the sort of
  the engine.
\<close>

definition restoreKeyFallback ::
  "content sorter \<Rightarrow> (Date \<Rightarrow> string) \<Rightarrow> string list \<Rightarrow> content list \<Rightarrow>
   ArtifactCacheEntry option" where
  "restoreKeyFallback srt toString keys contents =
     (case searchRestoreKeyEntry srt (tl keys) contents of
        None \<Rightarrow> None
      | Some found \<Rightarrow>
          (case LastModified found of
             None \<Rightarrow> None
           | Some t \<Rightarrow>
               Some \<lparr>cacheKey = Key found, scope = None, cacheVersion = None,
                     creationTime = Some (toString t),
                     archiveLocation = Some ''https://s3.amazonaws.com/''\<rparr>))"

text \<open>
  The \<^verbatim>\<open>for (;;)\<close> loop of \<^verbatim>\<open>getCacheEntryS3\<close>. The object store is the sequence of
  outcomes of the successive \<^verbatim>\<open>s3client.send\<close> calls (\<open>Inl\<close> a rejection); the loop has
  no bound of its own, so a sequence that ends while the loop still asks gives \<open>None\<close>.
  \<open>paramToken\<close> is \<^verbatim>\<open>param.ContinuationToken\<close>, which is overwritten only by a defined
  \<^verbatim>\<open>s3ContinuationToken\<close>; \<open>sent\<close> logs every request issued.
\<close>

fun listLoop ::
  "content sorter \<Rightarrow> (Date \<Rightarrow> string) \<Rightarrow> string \<Rightarrow> string list \<Rightarrow> string option \<Rightarrow>
   (string + ListObjectsV2CommandOutput) list \<Rightarrow>
   string option \<Rightarrow> string option \<Rightarrow> content list \<Rightarrow> ListObjectsV2CommandInput list \<Rightarrow>
   ((error + ArtifactCacheEntry option) \<times> ListObjectsV2CommandInput list) option" where
  "listLoop srt toString s3BucketName keys primaryKey [] paramToken s3ContinuationToken contents sent =
     None"
| "listLoop srt toString s3BucketName keys primaryKey (r # rs) paramToken s3ContinuationToken contents sent =
     (let paramToken' = (if s3ContinuationToken \<noteq> None then s3ContinuationToken else paramToken);
          sent' = sent @ [\<lparr>Bucket = s3BucketName, ContinuationToken = paramToken'\<rparr>]
      in case r of
           Inl e \<Rightarrow> Some (Inl (ErrorFromS3 e), sent')
         | Inr response \<Rightarrow>
             (case Contents response of
                None \<Rightarrow>
                  if contents \<noteq> []
                  then Some (Inr (restoreKeyFallback srt toString keys contents), sent')
                  else Some (Inl (CannotFoundObject s3BucketName), sent')
              | Some cs \<Rightarrow>
                  (case foundLastModified primaryKey cs of
                     Some t \<Rightarrow>
                       Some (Inr (Some \<lparr>cacheKey = primaryKey, scope = None,
                                        cacheVersion = None,
                                        creationTime = Some (toString t),
                                        archiveLocation = Some ''https://s3.amazonaws.com/''\<rparr>),
                             sent')
                   | None \<Rightarrow>
                       (let contents' =
                              contents @
                              map (\<lambda>obj. \<lparr>Key = Key obj, LastModified = LastModified obj\<rparr>) cs
                        in if IsTruncated response = Some True
                           then listLoop srt toString s3BucketName keys primaryKey rs paramToken'
                                  (NextContinuationToken response) contents' sent'
                           else Some (Inr (restoreKeyFallback srt toString keys contents'), sent')))))"

text \<open>\<^verbatim>\<open>keys[0]\<close>: \<^verbatim>\<open>undefined\<close> when the array is empty.\<close>

definition index0 :: "'a list \<Rightarrow> 'a option" where
  "index0 xs = (case xs of [] \<Rightarrow> None | x # _ \<Rightarrow> Some x)"

text \<open>
  \<^verbatim>\<open>getCacheEntryS3(s3Options, s3BucketName, keys, paths)\<close>; the client built from
  \<open>s3Options\<close> is the response sequence \<open>s3\<close>. \<open>paths\<close> is a parameter the body never
  reads.
\<close>

definition getCacheEntryS3 ::
  "content sorter \<Rightarrow> (Date \<Rightarrow> string) \<Rightarrow> (string + ListObjectsV2CommandOutput) list \<Rightarrow>
   string \<Rightarrow> string list \<Rightarrow> string list \<Rightarrow>
   ((error + ArtifactCacheEntry option) \<times> ListObjectsV2CommandInput list) option" where
  "getCacheEntryS3 srt toString s3 s3BucketName keys paths =
     listLoop srt toString s3BucketName keys (index0 keys) s3 None None [] []"

section \<open>Vocabulary for statements about listings\<close>

text \<open>The objects a response lists.\<close>

definition pageObjects :: "string + ListObjectsV2CommandOutput \<Rightarrow> content list" where
  "pageObjects r =
     (case r of
        Inl _ \<Rightarrow> []
      | Inr response \<Rightarrow> (case Contents response of None \<Rightarrow> [] | Some cs \<Rightarrow> cs))"

text \<open>A response that carries \<^verbatim>\<open>Contents\<close> and announces a further page.\<close>

definition pageTruncated :: "string + ListObjectsV2CommandOutput \<Rightarrow> bool" where
  "pageTruncated r =
     (case r of
        Inl _ \<Rightarrow> False
      | Inr response \<Rightarrow> Contents response \<noteq> None \<and> IsTruncated response = Some True)"

section \<open>The cache service and the collaborators of the module\<close>

text \<open>
  The body of a JSON response: the shapes the module names as type arguments of
  \<^verbatim>\<open>getJson\<close> and \<^verbatim>\<open>postJson\<close>. Of an \<^verbatim>\<open>ArtifactCacheList\<close> only \<^verbatim>\<open>totalCount\<close> is kept
  (it is read for debug output only); of a \<^verbatim>\<open>ReserveCacheResponse\<close> the \<^verbatim>\<open>cacheId\<close>.
\<close>

datatype json =
    ArtifactCacheEntry_body ArtifactCacheEntry
  | ArtifactCacheList_body "int option"
  | ReserveCacheResponse_body "int option"

text \<open>\<^verbatim>\<open>ITypedResponseWithError<T>\<close>; \<open>result = None\<close> is \<^verbatim>\<open>null\<close>.\<close>

record TypedResponse =
  statusCode :: int
  result :: "json option"
  headers :: "(string \<times> string) list"

text \<open>Of an \<^verbatim>\<open>HttpClientResponse\<close> the module reads \<^verbatim>\<open>message.statusCode\<close> only.\<close>

record HttpClientResponse =
  message_statusCode :: "int option"

datatype request_body =
    ReserveCacheRequest string string "int option"
  | CommitCacheRequest int

record InternalCacheOptions =
  compressionMethod :: "string option"
  enableCrossOsArchive :: "bool option"
  cacheSize :: "int option"

record UploadOptions =
  useAzureSdk :: "bool option"
  uploadConcurrency :: "nat option"
  uploadChunkSize :: "int option"

record S3ClientConfig =
  region :: "string option"
  endpoint :: "string option"

text \<open>
  What the module imports and calls, over a state \<open>'w\<close> of everything outside the
  process (the cache service, the blob store, the object store's upload side). An
  operation takes the state and returns its outcome (\<open>Inl\<close> when it throws or its
  promise rejects) with the new state. The two retry wrappers of \<^verbatim>\<open>requestUtils\<close> take
  the operation they wrap as an argument, as in the source. \<open>Date_toString\<close>,
  \<open>Number_toString\<close> and \<open>Array_sort\<close> are the engine's \<^verbatim>\<open>Date.prototype.toString\<close>,
  \<^verbatim>\<open>Number.prototype.toString\<close> and \<^verbatim>\<open>Array.prototype.sort\<close>.
\<close>

record 'w env =
  getCacheServiceURL :: string
  isDebug :: bool
  getCacheVersion :: "string list \<Rightarrow> string option \<Rightarrow> bool option \<Rightarrow> string"
  encodeURIComponent :: "string \<Rightarrow> string"
  Date_toString :: "Date \<Rightarrow> string"
  Number_toString :: "int \<Rightarrow> string"
  Array_sort :: "content sorter"
  getUploadOptions :: "UploadOptions option \<Rightarrow> UploadOptions"
  getArchiveFileSizeInBytes :: "string \<Rightarrow> int"
  retryTypedResponse ::
    "string \<Rightarrow> ('w \<Rightarrow> (error + TypedResponse) \<times> 'w) \<Rightarrow> 'w \<Rightarrow> (error + TypedResponse) \<times> 'w"
  retryHttpClientResponse ::
    "string \<Rightarrow> ('w \<Rightarrow> (error + HttpClientResponse) \<times> 'w) \<Rightarrow> 'w \<Rightarrow>
     (error + HttpClientResponse) \<times> 'w"
  getJson :: "string \<Rightarrow> 'w \<Rightarrow> (error + TypedResponse) \<times> 'w"
  postJson :: "string \<Rightarrow> request_body \<Rightarrow> 'w \<Rightarrow> (error + TypedResponse) \<times> 'w"
  sendStream ::
    "string \<Rightarrow> string \<Rightarrow> int \<times> int \<Rightarrow> (string \<times> string) list \<Rightarrow> 'w \<Rightarrow>
     (error + HttpClientResponse) \<times> 'w"
  uploadCacheArchiveSDK ::
    "string \<Rightarrow> string \<Rightarrow> UploadOptions option \<Rightarrow> 'w \<Rightarrow> (error + unit) \<times> 'w"
  parallelUpload_done ::
    "S3ClientConfig \<Rightarrow> string \<Rightarrow> string \<Rightarrow> nat \<Rightarrow> int \<Rightarrow> 'w \<Rightarrow> (string + unit) \<times> 'w"

text \<open>
  Modelled from the spec: \<^verbatim>\<open>isSuccessStatusCode\<close> of \<^verbatim>\<open>requestUtils\<close>, which is not among
  the sources. The spec calls every status that is not 2xx a failure; a response
  without status is none.
\<close>

definition isSuccessStatusCode :: "int option \<Rightarrow> bool" where
  "isSuccessStatusCode s = (case s of None \<Rightarrow> False | Some c \<Rightarrow> 200 \<le> c \<and> c < 300)"

text \<open>
  The truth value of an optional string in a condition: \<^verbatim>\<open>undefined\<close> and the empty
  string are falsy.
\<close>

definition truthy :: "string option \<Rightarrow> bool" where
  "truthy s = (case s of None \<Rightarrow> False | Some v \<Rightarrow> v \<noteq> [])"

text \<open>\<^verbatim>\<open>keys.join(',')\<close>.\<close>

fun join :: "string list \<Rightarrow> string" where
  "join [] = []"
| "join [k] = k"
| "join (k # ks) = k @ '','' @ join ks"

definition getCacheApiUrl :: "'w env \<Rightarrow> string \<Rightarrow> error + string" where
  "getCacheApiUrl env resource =
     (let baseUrl = getCacheServiceURL env
      in if baseUrl = [] then Inl CacheServiceUrlNotFound
         else Inr (baseUrl @ ''_apis/artifactcache/'' @ resource))"

text \<open>
  An \<^verbatim>\<open>async () => httpClient.m(getCacheApiUrl(resource), ...)\<close> closure: a throw of
  \<^verbatim>\<open>getCacheApiUrl\<close> rejects the closure's promise before any request is made.
\<close>

definition atApiUrl ::
  "'w env \<Rightarrow> string \<Rightarrow> (string \<Rightarrow> 'w \<Rightarrow> (error + 'r) \<times> 'w) \<Rightarrow> 'w \<Rightarrow> (error + 'r) \<times> 'w" where
  "atApiUrl env resource call w =
     (case getCacheApiUrl env resource of
        Inl e \<Rightarrow> (Inl e, w)
      | Inr url \<Rightarrow> call url w)"

section \<open>Lookup\<close>

text \<open>
  \<^verbatim>\<open>printCachesListForDiagnostics\<close>: one wrapped request; what it does with the answer
  is debug output only. It throws when the wrapper does.
\<close>

definition printCachesListForDiagnostics ::
  "'w env \<Rightarrow> string option \<Rightarrow> string \<Rightarrow> 'w \<Rightarrow> (error + unit) \<times> 'w" where
  "printCachesListForDiagnostics env k version w =
     (let resource = ''caches?key='' @ encodeURIComponent env (case k of None \<Rightarrow> ''undefined'' | Some s \<Rightarrow> s);
          (response, w') = retryTypedResponse env ''listCache'' (atApiUrl env resource (getJson env)) w
      in case response of
           Inl e \<Rightarrow> (Inl e, w')
         | Inr _ \<Rightarrow> (Inr (), w'))"

text \<open>
  \<^verbatim>\<open>utils.getCacheVersion(paths, options?.compressionMethod, options?.enableCrossOsArchive)\<close>,
  as \<^verbatim>\<open>getCacheEntry\<close> and \<^verbatim>\<open>reserveCache\<close> both compute it.
\<close>

definition cacheVersionOf :: "'w env \<Rightarrow> string list \<Rightarrow> InternalCacheOptions option \<Rightarrow> string" where
  "cacheVersionOf env paths options =
     getCacheVersion env paths
       (case options of None \<Rightarrow> None | Some opts \<Rightarrow> compressionMethod opts)
       (case options of None \<Rightarrow> None | Some opts \<Rightarrow> enableCrossOsArchive opts)"

text \<open>The \<^verbatim>\<open>resource\<close> of the lookup (lines 247 to 249), for a given version.\<close>

definition lookupResource :: "'w env \<Rightarrow> string list \<Rightarrow> string \<Rightarrow> string" where
  "lookupResource env keys version =
     ''cache?keys='' @ encodeURIComponent env (join keys) @ ''&version='' @ version"

text \<open>
  \<^verbatim>\<open>getCacheEntry\<close>. With both \<open>s3Options\<close> and a non-empty \<open>s3BucketName\<close> the lookup is
  \<open>getCacheEntryS3\<close> over the object store \<open>s3\<close>; otherwise it asks the cache service.
  The result carries the state and the \<^verbatim>\<open>ListObjectsV2\<close> requests issued.
\<close>

definition getCacheEntry ::
  "'w env \<Rightarrow> (string + ListObjectsV2CommandOutput) list \<Rightarrow>
   string list \<Rightarrow> string list \<Rightarrow> InternalCacheOptions option \<Rightarrow>
   S3ClientConfig option \<Rightarrow> string option \<Rightarrow> 'w \<Rightarrow>
   ((error + ArtifactCacheEntry option) \<times> 'w \<times> ListObjectsV2CommandInput list) option" where
  "getCacheEntry env s3 keys paths options s3Options s3BucketName w =
     (if s3Options \<noteq> None \<and> truthy s3BucketName
      then (case getCacheEntryS3 (Array_sort env) (Date_toString env) s3 (the s3BucketName) keys
                   paths of
              None \<Rightarrow> None
            | Some (r, sent) \<Rightarrow> Some (r, w, sent))
      else
        (let version = cacheVersionOf env paths options;
             resource = lookupResource env keys version;
             (response, w1) =
               retryTypedResponse env ''getCacheEntry'' (atApiUrl env resource (getJson env)) w
         in case response of
              Inl e \<Rightarrow> Some (Inl e, w1, [])
            | Inr response \<Rightarrow>
                if statusCode response = 204
                then (if isDebug env
                      then (case printCachesListForDiagnostics env (index0 keys) version w1 of
                              (Inl e, w2) \<Rightarrow> Some (Inl e, w2, [])
                            | (Inr _, w2) \<Rightarrow> Some (Inr None, w2, []))
                      else Some (Inr None, w1, []))
                else if \<not> isSuccessStatusCode (Some (statusCode response))
                then Some (Inl (CacheServiceRespondedWith (statusCode response)), w1, [])
                else
                  (case result response of
                     Some (ArtifactCacheEntry_body cacheResult) \<Rightarrow>
                       (if truthy (archiveLocation cacheResult)
                        then Some (Inr (Some cacheResult), w1, [])
                        else Some (Inl CacheNotFound, w1, []))
                   | _ \<Rightarrow> Some (Inl CacheNotFound, w1, []))))"

section \<open>Reserve\<close>

definition reserveCache ::
  "'w env \<Rightarrow> string \<Rightarrow> string list \<Rightarrow> InternalCacheOptions option \<Rightarrow>
   S3ClientConfig option \<Rightarrow> string option \<Rightarrow> 'w \<Rightarrow> (error + TypedResponse) \<times> 'w" where
  "reserveCache env k paths options s3Options s3BucketName w =
     (if s3Options \<noteq> None \<and> truthy s3BucketName
      then (Inr \<lparr>statusCode = 200, result = None, headers = []\<rparr>, w)
      else
        (let version = cacheVersionOf env paths options;
             reserveCacheRequest =
               ReserveCacheRequest k version
                 (case options of None \<Rightarrow> None | Some opts \<Rightarrow> cacheSize opts)
         in retryTypedResponse env ''reserveCache''
              (atApiUrl env ''caches'' (\<lambda>url. postJson env url reserveCacheRequest)) w))"

section \<open>Upload\<close>

definition getContentRange :: "'w env \<Rightarrow> int \<Rightarrow> int \<Rightarrow> string" where
  "getContentRange env start end =
     ''bytes '' @ Number_toString env start @ ''-'' @ Number_toString env end @ ''/*''"

text \<open>
  \<^verbatim>\<open>uploadChunk\<close>: one wrapped \<^verbatim>\<open>PATCH\<close> of the bytes \<open>start\<close> to \<open>end\<close>, then the status
  check. The stream \<^verbatim>\<open>openStream()\<close> reads is the byte range.
\<close>

definition uploadChunk :: "'w env \<Rightarrow> string \<Rightarrow> int \<Rightarrow> int \<Rightarrow> 'w \<Rightarrow> (error + unit) \<times> 'w" where
  "uploadChunk env resourceUrl start end w =
     (let additionalHeaders =
            [(''Content-Type'', ''application/octet-stream''),
             (''Content-Range'', getContentRange env start end)];
          (uploadChunkResponse, w') =
            retryHttpClientResponse env
              (''uploadChunk (start: '' @ Number_toString env start @ '', end: '' @
               Number_toString env end @ '')'')
              (sendStream env ''PATCH'' resourceUrl (start, end) additionalHeaders) w
      in case uploadChunkResponse of
           Inl e \<Rightarrow> (Inl e, w')
         | Inr response \<Rightarrow>
             if \<not> isSuccessStatusCode (message_statusCode response)
             then (Inl (UploadChunkRespondedWith (message_statusCode response)), w')
             else (Inr (), w'))"

definition uploadFileS3 ::
  "'w env \<Rightarrow> S3ClientConfig \<Rightarrow> string \<Rightarrow> string \<Rightarrow> string \<Rightarrow> nat \<Rightarrow> int \<Rightarrow> 'w \<Rightarrow>
   (error + unit) \<times> 'w" where
  "uploadFileS3 env s3options s3BucketName archivePath k concurrency maxChunkSize w =
     (case parallelUpload_done env s3options s3BucketName k concurrency maxChunkSize w of
        (Inl e, w') \<Rightarrow> (Inl (CacheUploadFailed e), w')
      | (Inr _, w') \<Rightarrow> (Inr (), w'))"

text \<open>
  The workers of \<^verbatim>\<open>Promise.all(parallelUploads.map(async () => { while ... }))\<close>. A
  worker runs without interruption from one \<^verbatim>\<open>await\<close> to the next, so its state between
  two steps is: not yet called by the \<^verbatim>\<open>map\<close>, waiting for the \<^verbatim>\<open>uploadChunk\<close> it
  called (with the outcome that call will settle to), returned, or thrown. The request
  of an \<^verbatim>\<open>uploadChunk\<close> call acts on the state outside when the call is made; its outcome
  reaches the worker when the promise settles.
\<close>

datatype worker = Unstarted | Awaiting "error + unit" | Fulfilled | Rejected error

record 'w pool =
  offset :: int
  workers :: "worker list"
  submitted :: "(int \<times> int) list"
  world :: 'w
  rejection :: "error option"

text \<open>
  Worker \<open>i\<close> at the head of its \<^verbatim>\<open>while (offset < fileSize)\<close> loop: it claims the next
  range, advances the shared \<open>offset\<close> and calls \<^verbatim>\<open>uploadChunk\<close>, or leaves the loop.
  \<open>submitted\<close> lists the ranges given to \<^verbatim>\<open>uploadChunk\<close>, in call order.
\<close>

definition workerLoop :: "'w env \<Rightarrow> string \<Rightarrow> int \<Rightarrow> int \<Rightarrow> nat \<Rightarrow> 'w pool \<Rightarrow> 'w pool" where
  "workerLoop env resourceUrl fileSize maxChunkSize i p =
     (if offset p < fileSize
      then (let chunkSize = min (fileSize - offset p) maxChunkSize;
                start = offset p;
                end = offset p + chunkSize - 1;
                (r, w') = uploadChunk env resourceUrl start end (world p)
            in p\<lparr>offset := offset p + maxChunkSize,
                 workers := (workers p)[i := Awaiting r],
                 submitted := submitted p @ [(start, end)],
                 world := w'\<rparr>)
      else p\<lparr>workers := (workers p)[i := Fulfilled]\<rparr>)"

text \<open>
  The promise worker \<open>i\<close> awaits settles: a failed \<^verbatim>\<open>uploadChunk\<close> throws out of the
  worker (the first such rejection is the one \<^verbatim>\<open>Promise.all\<close> reports), a successful one
  returns the worker to the head of its loop. The other workers are not cancelled.
\<close>

definition settle :: "'w env \<Rightarrow> string \<Rightarrow> int \<Rightarrow> int \<Rightarrow> nat \<Rightarrow> 'w pool \<Rightarrow> 'w pool" where
  "settle env resourceUrl fileSize maxChunkSize i p =
     (if i < length (workers p)
      then (case workers p ! i of
              Awaiting (Inl e) \<Rightarrow>
                p\<lparr>workers := (workers p)[i := Rejected e],
                  rejection := (case rejection p of None \<Rightarrow> Some e | Some first \<Rightarrow> Some first)\<rparr>
            | Awaiting (Inr _) \<Rightarrow> workerLoop env resourceUrl fileSize maxChunkSize i p
            | _ \<Rightarrow> p)
      else p)"

text \<open>
  \<open>startPool\<close> is the \<^verbatim>\<open>map\<close>, which runs every worker to its first \<^verbatim>\<open>await\<close>, in order;
  \<open>runPool\<close> settles the awaited promises in the order \<open>schedule\<close> gives (each element
  names the worker whose promise settles next).
\<close>

definition startPool :: "'w env \<Rightarrow> string \<Rightarrow> int \<Rightarrow> int \<Rightarrow> nat \<Rightarrow> 'w \<Rightarrow> 'w pool" where
  "startPool env resourceUrl fileSize maxChunkSize concurrency w =
     fold (workerLoop env resourceUrl fileSize maxChunkSize) [0..<concurrency]
       \<lparr>offset = 0, workers = replicate concurrency Unstarted, submitted = [], world = w,
        rejection = None\<rparr>"

definition runPool :: "'w env \<Rightarrow> string \<Rightarrow> int \<Rightarrow> int \<Rightarrow> nat list \<Rightarrow> 'w pool \<Rightarrow> 'w pool" where
  "runPool env resourceUrl fileSize maxChunkSize schedule p =
     fold (settle env resourceUrl fileSize maxChunkSize) schedule p"

text \<open>
  \<^verbatim>\<open>Promise.all\<close>: rejected with the first rejection, fulfilled when every worker has
  returned, pending (\<open>None\<close>) otherwise.
\<close>

definition promiseAll :: "'w pool \<Rightarrow> (error + unit) option" where
  "promiseAll p =
     (case rejection p of
        Some e \<Rightarrow> Some (Inl e)
      | None \<Rightarrow> if list_all (\<lambda>wk. wk = Fulfilled) (workers p) then Some (Inr ()) else None)"

text \<open>
  \<^verbatim>\<open>uploadFile\<close>. The result is the outcome (\<open>None\<close> while \<^verbatim>\<open>Promise.all\<close> is pending under
  the given schedule), the state, and the ranges submitted to \<^verbatim>\<open>uploadChunk\<close>.
  \<open>uploadConcurrency\<close> is a natural number, for which \<^verbatim>\<open>new Array(concurrency)\<close> does not
  throw; opening and closing the file descriptor is left out.
\<close>

definition uploadFile ::
  "'w env \<Rightarrow> nat list \<Rightarrow> int \<Rightarrow> string \<Rightarrow> string \<Rightarrow> UploadOptions option \<Rightarrow>
   S3ClientConfig option \<Rightarrow> string option \<Rightarrow> 'w \<Rightarrow>
   (error + unit) option \<times> 'w \<times> (int \<times> int) list" where
  "uploadFile env schedule cacheId archivePath k options s3options s3BucketName w =
     (let uploadOptions = getUploadOptions env options
      in case uploadConcurrency uploadOptions of
           None \<Rightarrow> (Some (Inl (ExpectedValueToBeDefined ''uploadConcurrency'')), w, [])
         | Some concurrency \<Rightarrow>
             (case uploadChunkSize uploadOptions of
                None \<Rightarrow> (Some (Inl (ExpectedValueToBeDefined ''uploadChunkSize'')), w, [])
              | Some maxChunkSize \<Rightarrow>
                  if s3options \<noteq> None \<and> truthy s3BucketName
                  then (case uploadFileS3 env (the s3options) (the s3BucketName) archivePath k
                               concurrency maxChunkSize w of
                          (r, w') \<Rightarrow> (Some r, w', []))
                  else
                    (let fileSize = getArchiveFileSizeInBytes env archivePath
                     in case getCacheApiUrl env (''caches/'' @ Number_toString env cacheId) of
                          Inl e \<Rightarrow> (Some (Inl e), w, [])
                        | Inr resourceUrl \<Rightarrow>
                            (let p = runPool env resourceUrl fileSize maxChunkSize schedule
                                       (startPool env resourceUrl fileSize maxChunkSize
                                          concurrency w)
                             in (promiseAll p, world p, submitted p)))))"

definition commitCache :: "'w env \<Rightarrow> int \<Rightarrow> int \<Rightarrow> 'w \<Rightarrow> (error + TypedResponse) \<times> 'w" where
  "commitCache env cacheId filesize w =
     (let commitCacheRequest = CommitCacheRequest filesize
      in retryTypedResponse env ''commitCache''
           (atApiUrl env (''caches/'' @ Number_toString env cacheId)
              (\<lambda>url. postJson env url commitCacheRequest)) w)"

definition saveCache ::
  "'w env \<Rightarrow> nat list \<Rightarrow> int \<Rightarrow> string \<Rightarrow> string \<Rightarrow> string option \<Rightarrow>
   UploadOptions option \<Rightarrow> S3ClientConfig option \<Rightarrow> string option \<Rightarrow> 'w \<Rightarrow>
   (error + unit) option \<times> 'w" where
  "saveCache env schedule cacheId archivePath k signedUploadURL options s3Options s3BucketName w =
     (let uploadOptions = getUploadOptions env options
      in if useAzureSdk uploadOptions = Some True
         then (if \<not> truthy signedUploadURL then (Some (Inl AzureNeedsSignedUrl), w)
               else (case uploadCacheArchiveSDK env (the signedUploadURL) archivePath options w of
                       (r, w') \<Rightarrow> (Some r, w')))
         else
           (case uploadFile env schedule cacheId archivePath k options s3Options s3BucketName w of
              (None, w1, _) \<Rightarrow> (None, w1)
            | (Some (Inl e), w1, _) \<Rightarrow> (Some (Inl e), w1)
            | (Some (Inr _), w1, _) \<Rightarrow>
                if s3Options = None
                then (let cacheSize = getArchiveFileSizeInBytes env archivePath
                      in case commitCache env cacheId cacheSize w1 of
                           (Inl e, w2) \<Rightarrow> (Some (Inl e), w2)
                         | (Inr commitCacheResponse, w2) \<Rightarrow>
                             if \<not> isSuccessStatusCode (Some (statusCode commitCacheResponse))
                             then (Some (Inl (CommitRespondedWith
                                                (statusCode commitCacheResponse))), w2)
                             else (Some (Inr ()), w2))
                else (Some (Inr ()), w1)))"

section \<open>Vocabulary for statements about requests\<close>

text \<open>
  The URL \<^verbatim>\<open>getCacheApiUrl\<close> returns for a resource when the base URL is set, and the
  resource of the diagnostic listing for the key \<open>k\<close> (\<^verbatim>\<open>keys[0]\<close>).
\<close>

definition apiUrl :: "'w env \<Rightarrow> string \<Rightarrow> string" where
  "apiUrl env resource = getCacheServiceURL env @ ''_apis/artifactcache/'' @ resource"

definition diagnosticsResource :: "'w env \<Rightarrow> string option \<Rightarrow> string" where
  "diagnosticsResource env k =
     ''caches?key='' @ encodeURIComponent env (case k of None \<Rightarrow> ''undefined'' | Some s \<Rightarrow> s)"

section \<open>Vocabulary for statements about byte ranges\<close>



definition times :: "int \<Rightarrow> (int \<times> int) list \<Rightarrow> nat" where
  "times b rs = length (filter (\<lambda>(s, e). s \<le> b \<and> b \<le> e) rs)"




section \<open>A recording cache service\<close>

text \<open>
  An environment to run the operations in: the state is the list of requests made so
  far, every request is recorded and answered with the status \<open>status\<close>, and both retry
  wrappers run their operation once. The version is the path list joined with the
  compression method; the archive has \<open>fileSize\<close> bytes; numbers print as \<open>decimal\<close>
  does, which is what \<^verbatim>\<open>Number.prototype.toString\<close> gives for the integers used here; the
  engine sorts by insertion.
\<close>

fun digits :: "nat \<Rightarrow> string" where
  "digits n =
     (if n < 10 then [char_of (48 + n)] else digits (n div 10) @ [char_of (48 + n mod 10)])"

definition decimal :: "int \<Rightarrow> string" where
  "decimal i = (if i < 0 then CHR ''-'' # digits (nat (- i)) else digits (nat i))"

datatype request =
    GET string
  | POST string request_body
  | PATCH string "int \<times> int" "(string \<times> string) list"
  | BlobUpload string string
  | MultipartUpload string string

definition recordingEnv :: "bool \<Rightarrow> UploadOptions \<Rightarrow> int \<Rightarrow> int \<Rightarrow> request list env" where
  "recordingEnv debug uploadOptions fileSize status =
     \<lparr>getCacheServiceURL = ''https://cache/'',
      isDebug = debug,
      getCacheVersion =
        (\<lambda>paths method crossOs. join paths @ ''|'' @ (case method of None \<Rightarrow> [] | Some m \<Rightarrow> m)),
      encodeURIComponent = (\<lambda>s. s),
      Date_toString = (\<lambda>t. ''date''),
      Number_toString = decimal,
      Array_sort = insertionSort,
      getUploadOptions = (\<lambda>options. case options of None \<Rightarrow> uploadOptions | Some given \<Rightarrow> given),
      getArchiveFileSizeInBytes = (\<lambda>path. fileSize),
      retryTypedResponse = (\<lambda>name method. method),
      retryHttpClientResponse = (\<lambda>name method. method),
      getJson = (\<lambda>url w. (Inr \<lparr>statusCode = status, result = None, headers = []\<rparr>, w @ [GET url])),
      postJson =
        (\<lambda>url body w. (Inr \<lparr>statusCode = status, result = None, headers = []\<rparr>, w @ [POST url body])),
      sendStream =
        (\<lambda>verb url range hs w. (Inr \<lparr>message_statusCode = Some status\<rparr>, w @ [PATCH url range hs])),
      uploadCacheArchiveSDK = (\<lambda>url path options w. (Inr (), w @ [BlobUpload url path])),
      parallelUpload_done =
        (\<lambda>config bucket k queueSize partSize w. (Inr (), w @ [MultipartUpload bucket k]))\<rparr>"


section \<open>Properties of the restore-key search\<close>

lemma set_sort_insert: "set (sort_insert cmp x ys) = insert x (set ys)"
  by (induction ys) auto

lemma set_stable_sort: "set (stable_sort cmp xs) = set xs"
  by (induction xs) (auto simp: set_sort_insert)

lemma array_sort_insertionSort [simp]: "array_sort insertionSort cmp xs = stable_sort cmp xs"
  by (simp add: array_sort.rep_eq insertionSort.rep_eq)

lemma mset_array_sort: "mset (array_sort srt cmp xs) = mset xs"
  using Rep_sorter [of srt] by (simp add: array_sort.rep_eq)

lemma array_sort_consistent:
  "consistent cmp (set xs) \<Longrightarrow> array_sort srt cmp xs = stable_sort cmp xs"
  using Rep_sorter [of srt] by (simp add: array_sort.rep_eq)

lemma set_array_sort: "set (array_sort srt cmp xs) = set xs"
  using mset_array_sort [of srt cmp xs] by (rule mset_eq_setD)

lemma array_sort_Nil_iff: "array_sort srt cmp xs = [] \<longleftrightarrow> xs = []"
  by (metis set_array_sort set_empty)

text \<open>On elements that all carry a timestamp the comparator is consistent.\<close>

lemma compareLastModified_consistent:
  assumes "\<forall>e\<in>S. LastModified e \<noteq> None"
  shows "consistent compareLastModified S"
proof -
  have stamped: "\<exists>t. LastModified e = Some t" if "e \<in> S" for e
    using assms that by auto
  have cmp: "compareLastModified a b =
               (if the (LastModified a) = the (LastModified b) then 0
                else if the (LastModified a) > the (LastModified b) then - 1 else 1)"
    if "a \<in> S" "b \<in> S" for a b
    using stamped [OF that(1)] stamped [OF that(2)]
    by (auto simp: compareLastModified_def)
  show ?thesis
    unfolding consistent_def by (auto simp: cmp split: if_splits)
qed

lemma scanEntries_eq:
  "scanEntries k es acc =
     (case find (\<lambda>e. Key e = Some k) es of
        Some e \<Rightarrow> Inl e
      | None \<Rightarrow> Inr (acc @ filter (\<lambda>e. startsWith (Key e) k) es))"
  by (induction es arbitrary: acc) (auto split: option.splits)

lemma startsWith_exact: "startsWith (Some k) k"
  by (simp add: startsWith_def)

text \<open>
  When every element carries a timestamp the comparator is a total preorder, and the
  head of the sorted array is a newest element.
\<close>

lemma hd_stable_sort:
  assumes "xs \<noteq> []" and "\<forall>e\<in>set xs. LastModified e \<noteq> None"
  shows "\<exists>r rest. stable_sort compareLastModified xs = r # rest \<and> r \<in> set xs \<and>
           (\<forall>e\<in>set xs. the (LastModified e) \<le> the (LastModified r))"
  using assms
proof (induction xs)
  case Nil
  then show ?case by simp
next
  case (Cons x xs)
  show ?case
  proof (cases "xs = []")
    case True
    then show ?thesis by simp
  next
    case False
    with Cons obtain r rest where r: "stable_sort compareLastModified xs = r # rest"
      "r \<in> set xs" "\<forall>e\<in>set xs. the (LastModified e) \<le> the (LastModified r)"
      by auto
    from Cons.prems r(2) obtain tx tr
      where t: "LastModified x = Some tx" "LastModified r = Some tr"
      by auto
    show ?thesis
    proof (cases "tr \<le> tx")
      case True
      then have "compareLastModified x r \<le> 0"
        using t by (simp add: compareLastModified_def)
      then have "stable_sort compareLastModified (x # xs) = x # r # rest"
        using r(1) by simp
      moreover have "\<forall>e\<in>set (x # xs). the (LastModified e) \<le> the (LastModified x)"
        using r(3) t True by auto
      ultimately show ?thesis by auto
    next
      case False
      then have "\<not> compareLastModified x r \<le> 0"
        using t by (simp add: compareLastModified_def)
      then have "stable_sort compareLastModified (x # xs) =
                   r # sort_insert compareLastModified x rest"
        using r(1) by simp
      moreover have "\<forall>e\<in>set (x # xs). the (LastModified e) \<le> the (LastModified r)"
        using r(3) t False by auto
      ultimately show ?thesis using r(2) by auto
    qed
  qed
qed

lemma hd_array_sort:
  assumes "xs \<noteq> []" and "\<forall>e\<in>set xs. LastModified e \<noteq> None"
  shows "\<exists>r rest. array_sort srt compareLastModified xs = r # rest \<and> r \<in> set xs \<and>
           (\<forall>e\<in>set xs. the (LastModified e) \<le> the (LastModified r))"
  using hd_stable_sort [OF assms]
  by (simp add: array_sort_consistent [OF compareLastModified_consistent [OF assms(2)]])

lemma one_None_iff:
  "searchRestoreKeyEntry_one srt k es = None \<longleftrightarrow> (\<forall>e\<in>set es. \<not> startsWith (Key e) k)"
proof (cases "find (\<lambda>e. Key e = Some k) es")
  case None
  then have "searchRestoreKeyEntry_one srt k es = None \<longleftrightarrow>
               array_sort srt compareLastModified (filter (\<lambda>e. startsWith (Key e) k) es) = []"
    by (simp add: searchRestoreKeyEntry_one_def scanEntries_eq split: list.splits)
  also have "\<dots> \<longleftrightarrow> filter (\<lambda>e. startsWith (Key e) k) es = []"
    by (rule array_sort_Nil_iff)
  also have "\<dots> \<longleftrightarrow> (\<forall>e\<in>set es. \<not> startsWith (Key e) k)"
    by (simp add: filter_empty_conv)
  finally show ?thesis .
next
  case (Some e)
  then have "e \<in> set es" "Key e = Some k" by (auto simp: find_Some_iff)
  then have "\<exists>e\<in>set es. startsWith (Key e) k" using startsWith_exact by metis
  then show ?thesis using Some
    by (auto simp: searchRestoreKeyEntry_one_def scanEntries_eq)
qed

lemma search_skip:
  "\<forall>k'\<in>set before. searchRestoreKeyEntry_one srt k' es = None \<Longrightarrow>
   searchRestoreKeyEntry srt (before @ ks) es = searchRestoreKeyEntry srt ks es"
  by (induction before) auto

lemma one_exact:
  assumes "\<exists>e\<in>set es. Key e = Some k"
  shows "\<exists>r. searchRestoreKeyEntry_one srt k es = Some r \<and> r \<in> set es \<and> Key r = Some k"
proof -
  from assms obtain r where f: "find (\<lambda>e. Key e = Some k) es = Some r"
    by (cases "find (\<lambda>e. Key e = Some k) es") (auto simp: find_None_iff)
  then have "searchRestoreKeyEntry_one srt k es = Some r"
    by (simp add: searchRestoreKeyEntry_one_def scanEntries_eq)
  moreover from f have "r \<in> set es \<and> Key r = Some k"
    by (auto simp: find_Some_iff)
  ultimately show ?thesis by blast
qed

lemma one_prefix:
  assumes "\<forall>e\<in>set es. Key e \<noteq> Some k"
  shows "searchRestoreKeyEntry_one srt k es =
           (case array_sort srt compareLastModified (filter (\<lambda>e. startsWith (Key e) k) es) of
              [] \<Rightarrow> None | newest # _ \<Rightarrow> Some newest)"
proof -
  from assms have "find (\<lambda>e. Key e = Some k) es = None"
    by (simp add: find_None_iff)
  then show ?thesis
    by (simp add: searchRestoreKeyEntry_one_def scanEntries_eq)
qed

lemma one_member:
  assumes "searchRestoreKeyEntry_one srt k es = Some r"
  shows "r \<in> set es \<and> startsWith (Key r) k"
proof (cases "\<exists>e\<in>set es. Key e = Some k")
  case True
  from one_exact [OF True, of srt] assms show ?thesis
    by (auto simp: startsWith_exact)
next
  case False
  then have "\<forall>e\<in>set es. Key e \<noteq> Some k" by simp
  from one_prefix [OF this] assms
  obtain rest
    where "array_sort srt compareLastModified (filter (\<lambda>e. startsWith (Key e) k) es) = r # rest"
    by (auto split: list.splits)
  then have "r \<in> set (array_sort srt compareLastModified (filter (\<lambda>e. startsWith (Key e) k) es))"
    by simp
  then show ?thesis by (simp add: set_array_sort)
qed

lemma one_newest:
  assumes noexact: "\<forall>e\<in>set es. Key e \<noteq> Some k"
    and stamped: "\<forall>e\<in>set es. startsWith (Key e) k \<longrightarrow> LastModified e \<noteq> None"
    and res: "searchRestoreKeyEntry_one srt k es = Some r"
  shows "\<forall>e\<in>set es. startsWith (Key e) k \<longrightarrow> the (LastModified e) \<le> the (LastModified r)"
proof -
  let ?P = "filter (\<lambda>e. startsWith (Key e) k) es"
  from one_member [OF res] have "?P \<noteq> []" by (auto simp: filter_empty_conv)
  moreover from stamped have "\<forall>e\<in>set ?P. LastModified e \<noteq> None" by simp
  ultimately obtain r' rest where s: "array_sort srt compareLastModified ?P = r' # rest"
    and m: "\<forall>e\<in>set ?P. the (LastModified e) \<le> the (LastModified r')"
    using hd_array_sort [of ?P] by blast
  from one_prefix [OF noexact] res s have "r' = r" by simp
  with m show ?thesis by simp
qed

lemma search_member: "searchRestoreKeyEntry srt ks es = Some r \<Longrightarrow> r \<in> set es"
  by (induction ks) (auto split: option.splits dest: one_member)

lemma search_None:
  "\<forall>k\<in>set ks. \<forall>e\<in>set es. \<not> startsWith (Key e) k \<Longrightarrow> searchRestoreKeyEntry srt ks es = None"
proof (induction ks)
  case Nil
  then show ?case by simp
next
  case (Cons k ks)
  then have "searchRestoreKeyEntry_one srt k es = None" by (simp add: one_None_iff)
  with Cons show ?case by simp
qed

text \<open>
  C2 (as amended). Let \<open>k\<close> be the first fallback key, in the caller's order, that some
  listed entry starts with (no entry starts with a key of \<open>before\<close>). Then
  \<open>searchRestoreKeyEntry\<close> returns an entry \<open>r\<close> of the listing that starts with \<open>k\<close>,
  and it is the result of the search for \<open>k\<close> alone, whatever keys come \<open>after\<close>. If
  some entry's key equals \<open>k\<close>, so does \<open>r\<close>'s. If none does and every entry that starts
  with \<open>k\<close> has a \<open>LastModified\<close>, no such entry is newer than \<open>r\<close>.
\<close>

theorem searchRestoreKeyEntry_first_fallback:
  assumes before: "\<forall>k'\<in>set before. \<forall>e\<in>set entries. \<not> startsWith (Key e) k'"
    and some: "\<exists>e\<in>set entries. startsWith (Key e) k"
  shows "\<exists>r. searchRestoreKeyEntry srt (before @ k # after) entries = Some r \<and>
           searchRestoreKeyEntry_one srt k entries = Some r \<and>
           r \<in> set entries \<and> startsWith (Key r) k \<and>
           ((\<exists>e\<in>set entries. Key e = Some k) \<longrightarrow> Key r = Some k) \<and>
           ((\<forall>e\<in>set entries. Key e \<noteq> Some k) \<longrightarrow>
            (\<forall>e\<in>set entries. startsWith (Key e) k \<longrightarrow> LastModified e \<noteq> None) \<longrightarrow>
            (\<forall>e\<in>set entries. startsWith (Key e) k \<longrightarrow>
                 the (LastModified e) \<le> the (LastModified r)))"
proof -
  from before have skip: "\<forall>k'\<in>set before. searchRestoreKeyEntry_one srt k' entries = None"
    by (simp add: one_None_iff)
  from some have "searchRestoreKeyEntry_one srt k entries \<noteq> None"
    by (simp add: one_None_iff)
  then obtain r where r: "searchRestoreKeyEntry_one srt k entries = Some r" by auto
  have "searchRestoreKeyEntry srt (before @ k # after) entries =
          searchRestoreKeyEntry srt (k # after) entries"
    using skip by (rule search_skip)
  also have "\<dots> = Some r" using r by simp
  finally have top: "searchRestoreKeyEntry srt (before @ k # after) entries = Some r" .
  have exact: "(\<exists>e\<in>set entries. Key e = Some k) \<longrightarrow> Key r = Some k"
    using one_exact [of entries k srt] r by auto
  have newest: "(\<forall>e\<in>set entries. Key e \<noteq> Some k) \<longrightarrow>
            (\<forall>e\<in>set entries. startsWith (Key e) k \<longrightarrow> LastModified e \<noteq> None) \<longrightarrow>
            (\<forall>e\<in>set entries. startsWith (Key e) k \<longrightarrow>
                 the (LastModified e) \<le> the (LastModified r))"
    using one_newest [of entries k srt r] r by blast
  from top r one_member [OF r] exact newest show ?thesis by blast
qed

text \<open>
  The theorem at the fallback keys \<open>x\<close>, \<open>k-\<close>, \<open>k\<close> over four entries: nothing starts with
  \<open>x\<close>, three entries start with \<open>k-\<close>, and the exact match of the later key \<open>k\<close> is not
  consulted.
\<close>

theorem searchRestoreKeyEntry_first_fallback_witness:
  "\<exists>r. searchRestoreKeyEntry insertionSort ([''x''] @ ''k-'' # [''k''])
          [\<lparr>Key = Some ''k-a'', LastModified = Some 3\<rparr>,
           \<lparr>Key = Some ''k-b'', LastModified = Some 7\<rparr>,
           \<lparr>Key = Some ''k-c'', LastModified = Some 5\<rparr>,
           \<lparr>Key = Some ''k'', LastModified = Some 9\<rparr>] = Some r \<and>
       startsWith (Key r) ''k-'' \<and> 7 \<le> the (LastModified r)"
proof -
  let ?es = "[\<lparr>Key = Some ''k-a'', LastModified = Some 3\<rparr>,
           \<lparr>Key = Some ''k-b'', LastModified = Some 7\<rparr>,
           \<lparr>Key = Some ''k-c'', LastModified = Some 5\<rparr>,
           \<lparr>Key = Some ''k'', LastModified = Some (9::int)\<rparr>]"
  have h1: "\<forall>k'\<in>set [''x'']. \<forall>e\<in>set ?es. \<not> startsWith (Key e) k'"
    by (simp add: startsWith_def)
  have h2: "\<exists>e\<in>set ?es. startsWith (Key e) ''k-''"
    by (simp add: startsWith_def)
  from searchRestoreKeyEntry_first_fallback [OF h1 h2, of insertionSort "[''k'']"]
  obtain r where r: "searchRestoreKeyEntry insertionSort ([''x''] @ ''k-'' # [''k'']) ?es = Some r"
    "startsWith (Key r) ''k-''"
    "(\<forall>e\<in>set ?es. Key e \<noteq> Some ''k-'') \<longrightarrow>
       (\<forall>e\<in>set ?es. startsWith (Key e) ''k-'' \<longrightarrow> LastModified e \<noteq> None) \<longrightarrow>
       (\<forall>e\<in>set ?es. startsWith (Key e) ''k-'' \<longrightarrow> the (LastModified e) \<le> the (LastModified r))"
    by blast
  from r(3) have "7 \<le> the (LastModified r)"
    by (simp add: startsWith_def)
  with r(1,2) show ?thesis by blast
qed

text \<open>
  C2 as stated fails when a prefix match has no \<open>LastModified\<close>: the comparator answers
  \<open>0\<close> for it, the stable sort leaves it in front, and it is returned although another
  prefix match carries a timestamp.
\<close>

theorem searchRestoreKeyEntry_latest_counterexample:
  "searchRestoreKeyEntry insertionSort [''k-'']
     [\<lparr>Key = Some ''k-a'', LastModified = None\<rparr>,
      \<lparr>Key = Some ''k-b'', LastModified = Some 5\<rparr>]
   = Some \<lparr>Key = Some ''k-a'', LastModified = None\<rparr> \<and>
   startsWith (Key \<lparr>Key = Some ''k-b'', LastModified = Some 5\<rparr>) ''k-''"
  by (simp add: searchRestoreKeyEntry_one_def startsWith_def compareLastModified_def)

text \<open>
  On these two entries the comparator answers \<open>0\<close> throughout, so it is consistent and
  every engine keeps their order: the entry without \<open>LastModified\<close> is selected whatever
  the engine.
\<close>

lemma searchRestoreKeyEntry_unstamped_any_engine:
  "searchRestoreKeyEntry srt [''k-'']
     [\<lparr>Key = Some ''k-a'', LastModified = None\<rparr>,
      \<lparr>Key = Some ''k-b'', LastModified = Some 5\<rparr>]
   = Some \<lparr>Key = Some ''k-a'', LastModified = None\<rparr>"
proof -
  let ?es = "[\<lparr>Key = Some ''k-a'', LastModified = None\<rparr>,
              \<lparr>Key = Some ''k-b'', LastModified = Some 5\<rparr>]"
  have "consistent compareLastModified (set ?es)"
    by (simp add: consistent_def compareLastModified_def)
  then have "array_sort srt compareLastModified ?es = stable_sort compareLastModified ?es"
    by (rule array_sort_consistent)
  then show ?thesis
    by (simp add: searchRestoreKeyEntry_one_def startsWith_def compareLastModified_def)
qed

section \<open>Properties of the object-store lookup\<close>

lemma content_copy: "map (\<lambda>obj. \<lparr>Key = Key obj, LastModified = LastModified obj\<rparr>) cs = cs"
  by (induction cs) auto

lemma listLoop_continue:
  assumes "\<forall>r\<in>set front. pageTruncated r \<and> foundLastModified pk (pageObjects r) = None"
  shows "\<exists>pt tok sent'.
           listLoop srt toString b keys pk (front @ rs) pt0 tok0 contents sent =
           listLoop srt toString b keys pk rs pt tok (contents @ concat (map pageObjects front)) sent' \<and>
           length sent' = length sent + length front"
  using assms
proof (induction front arbitrary: pt0 tok0 contents sent)
  case Nil
  have "listLoop srt toString b keys pk ([] @ rs) pt0 tok0 contents sent =
          listLoop srt toString b keys pk rs pt0 tok0 (contents @ concat (map pageObjects [])) sent \<and>
        length sent = length sent + length ([] :: (string + ListObjectsV2CommandOutput) list)"
    by simp
  then show ?case by blast
next
  case (Cons r front)
  from Cons.prems obtain response cs where r: "r = Inr response" "Contents response = Some cs"
    "foundLastModified pk cs = None" "IsTruncated response = Some True"
    by (cases r) (auto simp: pageTruncated_def pageObjects_def)
  let ?pt = "if tok0 \<noteq> None then tok0 else pt0"
  let ?sent = "sent @ [\<lparr>Bucket = b, ContinuationToken = ?pt\<rparr>]"
  have step: "listLoop srt toString b keys pk ((r # front) @ rs) pt0 tok0 contents sent =
        listLoop srt toString b keys pk (front @ rs) ?pt (NextContinuationToken response)
          (contents @ cs) ?sent"
    using r by (simp add: content_copy Let_def)
  from Cons.prems
  have "\<forall>r\<in>set front. pageTruncated r \<and> foundLastModified pk (pageObjects r) = None"
    by simp
  from Cons.IH [OF this, of ?pt "NextContinuationToken response" "contents @ cs" ?sent]
  obtain pt tok sent' where
    "listLoop srt toString b keys pk (front @ rs) ?pt (NextContinuationToken response)
       (contents @ cs) ?sent =
     listLoop srt toString b keys pk rs pt tok ((contents @ cs) @ concat (map pageObjects front)) sent'"
    "length sent' = length ?sent + length front"
    by blast
  moreover have "pageObjects r = cs" using r by (simp add: pageObjects_def)
  ultimately show ?case
    using step by (intro exI [of _ pt] exI [of _ tok] exI [of _ sent']) simp
qed

lemma listLoop_hit:
  assumes "Contents response = Some cs" and "foundLastModified pk cs = Some t"
  shows "\<exists>sent'. listLoop srt toString b keys pk (Inr response # rs) pt tok contents sent =
           Some (Inr (Some \<lparr>cacheKey = pk, scope = None, cacheVersion = None,
                             creationTime = Some (toString t),
                             archiveLocation = Some ''https://s3.amazonaws.com/''\<rparr>), sent') \<and>
           length sent' = length sent + 1"
  using assms by (simp add: Let_def)

lemma listLoop_last:
  assumes "Contents response = Some cs" and "foundLastModified pk cs = None"
    and "IsTruncated response \<noteq> Some True"
  shows "\<exists>sent'. listLoop srt toString b keys pk (Inr response # rs) pt tok contents sent =
           Some (Inr (restoreKeyFallback srt toString keys (contents @ cs)), sent') \<and>
           length sent' = length sent + 1"
  using assms by (simp add: Let_def content_copy)

lemma listLoop_no_contents:
  assumes "Contents response = None" and "contents \<noteq> []"
  shows "\<exists>sent'. listLoop srt toString b keys pk (Inr response # rs) pt tok contents sent =
           Some (Inr (restoreKeyFallback srt toString keys contents), sent') \<and>
           length sent' = length sent + 1"
  using assms by (simp add: Let_def)

lemma foundLastModified_Some:
  "foundLastModified pk cs = Some t \<Longrightarrow> \<exists>c\<in>set cs. Key c = pk \<and> LastModified c = Some t"
  by (auto simp: foundLastModified_def find_Some_iff split: option.splits)

lemma foundLastModified_no_key:
  "\<forall>c\<in>set cs. Key c \<noteq> pk \<Longrightarrow> foundLastModified pk cs = None"
  by (simp add: foundLastModified_def find_None_iff [THEN iffD2])

lemma restoreKeyFallback_Some:
  assumes "restoreKeyFallback srt toString keys contents = Some entry"
  shows "\<exists>c\<in>set contents. \<exists>t. LastModified c = Some t \<and> cacheKey entry = Key c \<and>
           creationTime entry = Some (toString t)"
proof -
  from assms obtain c t where "searchRestoreKeyEntry srt (tl keys) contents = Some c"
    "LastModified c = Some t"
    "entry = \<lparr>cacheKey = Key c, scope = None, cacheVersion = None,
              creationTime = Some (toString t),
              archiveLocation = Some ''https://s3.amazonaws.com/''\<rparr>"
    by (auto simp: restoreKeyFallback_def split: option.splits)
  then show ?thesis using search_member by fastforce
qed

lemma listLoop_entry:
  assumes "listLoop srt toString b keys pk rs pt tok contents sent = Some (Inr (Some entry), sent')"
  shows "\<exists>c\<in>set contents \<union> set (concat (map pageObjects rs)).
           \<exists>t. LastModified c = Some t \<and> cacheKey entry = Key c \<and>
               creationTime entry = Some (toString t)"
  using assms
proof (induction rs arbitrary: pt tok contents sent)
  case Nil
  then show ?case by simp
next
  case (Cons r rs)
  show ?case
  proof (cases r)
    case (Inl e)
    with Cons.prems show ?thesis by (simp add: Let_def)
  next
    case (Inr response)
    show ?thesis
    proof (cases "Contents response")
      case None
      with Inr Cons.prems have "restoreKeyFallback srt toString keys contents = Some entry"
        by (simp add: Let_def split: if_splits)
      from restoreKeyFallback_Some [OF this] show ?thesis by blast
    next
      case (Some cs)
      then have objs: "pageObjects r = cs" using Inr by (simp add: pageObjects_def)
      show ?thesis
      proof (cases "foundLastModified pk cs")
        case (Some t)
        with \<open>Contents response = Some cs\<close> Inr Cons.prems
        have "entry = \<lparr>cacheKey = pk, scope = None, cacheVersion = None,
                         creationTime = Some (toString t),
                         archiveLocation = Some ''https://s3.amazonaws.com/''\<rparr>"
          by (simp add: Let_def)
        moreover from foundLastModified_Some [OF Some]
        obtain c where "c \<in> set cs" "Key c = pk" "LastModified c = Some t" by blast
        ultimately have "c \<in> set contents \<union> set (concat (map pageObjects (r # rs))) \<and>
            LastModified c = Some t \<and> cacheKey entry = Key c \<and>
            creationTime entry = Some (toString t)"
          using objs by simp
        then show ?thesis by blast
      next
        case None
        show ?thesis
        proof (cases "IsTruncated response = Some True")
          case True
          let ?pt = "if tok \<noteq> None then tok else pt"
          from True None \<open>Contents response = Some cs\<close> Inr Cons.prems
          have "listLoop srt toString b keys pk rs ?pt (NextContinuationToken response) (contents @ cs)
                  (sent @ [\<lparr>Bucket = b, ContinuationToken = ?pt\<rparr>]) =
                Some (Inr (Some entry), sent')"
            by (simp add: Let_def content_copy)
          from Cons.IH [OF this] show ?thesis using objs by auto
        next
          case False
          with None \<open>Contents response = Some cs\<close> Inr Cons.prems
          have "restoreKeyFallback srt toString keys (contents @ cs) = Some entry"
            by (simp add: Let_def content_copy)
          from restoreKeyFallback_Some [OF this] show ?thesis using objs by auto
        qed
      qed
    qed
  qed
qed

text \<open>
  A listing that is followed page by page (\<open>front\<close>, every page truncated and without a
  primary match) up to a last response that ends it: either a page that is not
  truncated, or a response without \<^verbatim>\<open>Contents\<close> after objects were accumulated. The loop
  is left by \<^verbatim>\<open>break\<close> and the fallback runs over everything listed.
\<close>

lemma getCacheEntryS3_drained:
  assumes front: "\<forall>r\<in>set front. pageTruncated r \<and> foundLastModified (index0 keys) (pageObjects r) = None"
    and nohit: "foundLastModified (index0 keys) (pageObjects (Inr final)) = None"
    and ends: "(Contents final \<noteq> None \<and> IsTruncated final \<noteq> Some True) \<or>
               (Contents final = None \<and> concat (map pageObjects front) \<noteq> [])"
  shows "\<exists>sent. getCacheEntryS3 srt toString (front @ Inr final # rest) b keys paths =
           Some (Inr (restoreKeyFallback srt toString keys
                        (concat (map pageObjects (front @ [Inr final])))), sent) \<and>
           length sent = length front + 1"
proof -
  from listLoop_continue [OF front, of srt toString b keys "Inr final # rest" None None "[]" "[]"]
  obtain pt tok sent' where
    go: "getCacheEntryS3 srt toString (front @ Inr final # rest) b keys paths =
           listLoop srt toString b keys (index0 keys) (Inr final # rest) pt tok
             (concat (map pageObjects front)) sent'"
    and len: "length sent' = length front"
    by (auto simp: getCacheEntryS3_def)
  from ends show ?thesis
  proof
    assume a: "Contents final \<noteq> None \<and> IsTruncated final \<noteq> Some True"
    then obtain cs where cs: "Contents final = Some cs" by auto
    then have "pageObjects (Inr final) = cs" by (simp add: pageObjects_def)
    with nohit have "foundLastModified (index0 keys) cs = None" by simp
    from listLoop_last [OF cs this, of srt toString b keys rest pt tok
        "concat (map pageObjects front)" sent'] a
    show ?thesis using go len \<open>pageObjects (Inr final) = cs\<close> by auto
  next
    assume a: "Contents final = None \<and> concat (map pageObjects front) \<noteq> []"
    then have "pageObjects (Inr final) = []" by (simp add: pageObjects_def)
    with listLoop_no_contents [of final "concat (map pageObjects front)" srt toString b keys
        "index0 keys" rest pt tok sent'] a
    show ?thesis using go len by auto
  qed
qed

text \<open>
  C1 (as amended). Let the listing be followed through the pages \<open>front\<close> (each truncated,
  none with a primary match) to a page on which the first object under the primary key
  \<open>keys[0]\<close> has a \<open>LastModified\<close>. Then \<open>getCacheEntryS3\<close> returns the entry for the
  primary key with that timestamp, whatever other objects, fallback keys and timestamps
  there are, and it has issued exactly one request per page up to that one: the
  responses \<open>rest\<close> are never asked for.
\<close>

theorem getCacheEntryS3_primary_match:
  assumes front: "\<forall>r\<in>set front. pageTruncated r \<and>
                     foundLastModified (Some primary) (pageObjects r) = None"
    and page: "Contents response = Some cs"
    and found: "find (\<lambda>c. Key c = Some primary) cs = Some found"
    and stamped: "LastModified found = Some t"
  shows "\<exists>sent. getCacheEntryS3 srt toString (front @ Inr response # rest) s3BucketName
                   (primary # fallbacks) paths =
           Some (Inr (Some \<lparr>cacheKey = Some primary, scope = None, cacheVersion = None,
                             creationTime = Some (toString t),
                             archiveLocation = Some ''https://s3.amazonaws.com/''\<rparr>), sent) \<and>
           length sent = length front + 1"
proof -
  have pk: "index0 (primary # fallbacks) = Some primary" by (simp add: index0_def)
  from listLoop_continue [OF front, of srt toString s3BucketName "primary # fallbacks"
      "Inr response # rest" None None "[]" "[]"]
  obtain pt tok sent' where
    go: "getCacheEntryS3 srt toString (front @ Inr response # rest) s3BucketName
           (primary # fallbacks) paths =
         listLoop srt toString s3BucketName (primary # fallbacks) (Some primary)
           (Inr response # rest) pt tok (concat (map pageObjects front)) sent'"
    and len: "length sent' = length front"
    by (auto simp: getCacheEntryS3_def pk)
  from found stamped have "foundLastModified (Some primary) cs = Some t"
    by (simp add: foundLastModified_def)
  from listLoop_hit [OF page this, of srt toString s3BucketName "primary # fallbacks" rest pt tok
      "concat (map pageObjects front)" sent']
  show ?thesis using go len by auto
qed

text \<open>
  The theorem on a listing of three pages: the first is truncated and holds a newer
  prefix match of the fallback key, the second holds the primary key, the third is
  never requested.
\<close>

theorem getCacheEntryS3_primary_match_witness:
  "\<exists>sent. getCacheEntryS3 insertionSort (\<lambda>t. ''date'')
       ([Inr \<lparr>Contents = Some [\<lparr>Key = Some ''k-v1'', LastModified = Some 90\<rparr>],
              IsTruncated = Some True, NextContinuationToken = Some ''p2''\<rparr>] @
        Inr \<lparr>Contents = Some [\<lparr>Key = Some ''k-v0'', LastModified = Some 95\<rparr>,
                              \<lparr>Key = Some ''k-v2'', LastModified = Some 10\<rparr>],
             IsTruncated = Some True, NextContinuationToken = Some ''p3''\<rparr> #
        [Inl ''unreachable''])
       ''bucket'' (''k-v2'' # [''k-'']) [''node_modules''] =
     Some (Inr (Some \<lparr>cacheKey = Some ''k-v2'', scope = None, cacheVersion = None,
                       creationTime = Some ''date'',
                       archiveLocation = Some ''https://s3.amazonaws.com/''\<rparr>), sent) \<and>
     length sent = 2"
proof -
  let ?p1 = "Inr \<lparr>Contents = Some [\<lparr>Key = Some ''k-v1'', LastModified = Some (90::int)\<rparr>],
              IsTruncated = Some True, NextContinuationToken = Some ''p2''\<rparr>
            :: string + ListObjectsV2CommandOutput"
  have h1: "\<forall>r\<in>set [?p1]. pageTruncated r \<and>
              foundLastModified (Some ''k-v2'') (pageObjects r) = None"
    by (simp add: pageTruncated_def pageObjects_def foundLastModified_def)
  have h2: "Contents \<lparr>Contents = Some [\<lparr>Key = Some ''k-v0'', LastModified = Some (95::int)\<rparr>,
                              \<lparr>Key = Some ''k-v2'', LastModified = Some 10\<rparr>],
             IsTruncated = Some True, NextContinuationToken = Some ''p3''\<rparr> =
           Some [\<lparr>Key = Some ''k-v0'', LastModified = Some 95\<rparr>,
                 \<lparr>Key = Some ''k-v2'', LastModified = Some 10\<rparr>]"
    by simp
  have h3: "find (\<lambda>c. Key c = Some ''k-v2'')
              [\<lparr>Key = Some ''k-v0'', LastModified = Some (95::int)\<rparr>,
               \<lparr>Key = Some ''k-v2'', LastModified = Some 10\<rparr>] =
            Some \<lparr>Key = Some ''k-v2'', LastModified = Some 10\<rparr>"
    by simp
  have h4: "LastModified \<lparr>Key = Some ''k-v2'', LastModified = Some (10::int)\<rparr> = Some 10"
    by simp
  from getCacheEntryS3_primary_match [OF h1 h2 h3 h4, of insertionSort "\<lambda>t. ''date''" "[Inl ''unreachable'']"
      "''bucket''" "[''k-'']" "[''node_modules'']"]
  show ?thesis by (simp add: numeral_2_eq_2)
qed

text \<open>
  C1 as stated fails for an object under the primary key that has no \<open>LastModified\<close>: it
  is in the listing, and the lookup returns no entry.
\<close>

theorem getCacheEntryS3_primary_counterexample:
  "getCacheEntryS3 insertionSort (\<lambda>t. ''date'')
     [Inr \<lparr>Contents = Some [\<lparr>Key = Some ''k-v2'', LastModified = None\<rparr>],
           IsTruncated = Some False, NextContinuationToken = None\<rparr>]
     ''bucket'' [''k-v2''] [''node_modules''] =
   Some (Inr None, [\<lparr>Bucket = ''bucket'', ContinuationToken = None\<rparr>])"
  by (simp add: getCacheEntryS3_def index0_def foundLastModified_def restoreKeyFallback_def)

text \<open>
  C5 (as amended). Let the listing be followed through the truncated pages \<open>front\<close> to a
  response \<open>final\<close> that ends it (a page with \<^verbatim>\<open>Contents\<close> that is not truncated, or a
  response without \<^verbatim>\<open>Contents\<close> after at least one object was listed), and let no listed
  object have the primary key or start with a fallback key. Then the lookup returns
  \<^verbatim>\<open>null\<close>. When a response without \<^verbatim>\<open>Contents\<close> arrives before any object was listed
  (as the first response, or after truncated pages \<open>quiet\<close> whose \<^verbatim>\<open>Contents\<close> are empty)
  the lookup throws instead.
\<close>

theorem getCacheEntryS3_no_match:
  assumes front: "\<forall>r\<in>set front. pageTruncated r"
    and ends: "(Contents final \<noteq> None \<and> IsTruncated final \<noteq> Some True) \<or>
               (Contents final = None \<and> concat (map pageObjects front) \<noteq> [])"
    and nomatch: "\<forall>c\<in>set (concat (map pageObjects (front @ [Inr final]))).
                     Key c \<noteq> Some primary \<and> (\<forall>k\<in>set fallbacks. \<not> startsWith (Key c) k)"
  shows "(\<exists>sent. getCacheEntryS3 srt toString (front @ Inr final # rest) s3BucketName
                    (primary # fallbacks) paths = Some (Inr None, sent) \<and>
                 length sent = length front + 1) \<and>
         getCacheEntryS3 srt toString
           (Inr \<lparr>Contents = None, IsTruncated = truncated, NextContinuationToken = next\<rparr> # rest)
           s3BucketName (primary # fallbacks) paths =
         Some (Inl (CannotFoundObject s3BucketName),
               [\<lparr>Bucket = s3BucketName, ContinuationToken = None\<rparr>]) \<and>
         ((\<forall>r\<in>set quiet. pageTruncated r \<and> pageObjects r = []) \<longrightarrow>
            (\<exists>sent. getCacheEntryS3 srt toString
                      (quiet @
                       Inr \<lparr>Contents = None, IsTruncated = truncated,
                            NextContinuationToken = next\<rparr> # rest)
                      s3BucketName (primary # fallbacks) paths =
                    Some (Inl (CannotFoundObject s3BucketName), sent) \<and>
                    length sent = length quiet + 1))"
proof (intro conjI impI)
  have pk: "index0 (primary # fallbacks) = Some primary" by (simp add: index0_def)
  let ?all = "concat (map pageObjects (front @ [Inr final]))"
  have f: "\<forall>r\<in>set front. pageTruncated r \<and>
             foundLastModified (index0 (primary # fallbacks)) (pageObjects r) = None"
  proof
    fix r assume r: "r \<in> set front"
    with nomatch have "\<forall>c\<in>set (pageObjects r). Key c \<noteq> Some primary" by auto
    then have "foundLastModified (Some primary) (pageObjects r) = None"
      by (rule foundLastModified_no_key)
    with front r pk
    show "pageTruncated r \<and>
          foundLastModified (index0 (primary # fallbacks)) (pageObjects r) = None"
      by simp
  qed
  from nomatch have "\<forall>c\<in>set (pageObjects (Inr final)). Key c \<noteq> Some primary" by auto
  then have l: "foundLastModified (index0 (primary # fallbacks)) (pageObjects (Inr final)) = None"
    unfolding pk by (rule foundLastModified_no_key)
  from nomatch have "\<forall>k\<in>set fallbacks. \<forall>e\<in>set ?all. \<not> startsWith (Key e) k" by blast
  then have "searchRestoreKeyEntry srt fallbacks ?all = None" by (rule search_None)
  then have "restoreKeyFallback srt toString (primary # fallbacks) ?all = None"
    by (simp add: restoreKeyFallback_def)
  with getCacheEntryS3_drained [OF f l ends, of srt toString rest s3BucketName paths]
  show "\<exists>sent. getCacheEntryS3 srt toString (front @ Inr final # rest) s3BucketName
                  (primary # fallbacks) paths = Some (Inr None, sent) \<and>
               length sent = length front + 1"
    by simp
next
  show "getCacheEntryS3 srt toString
           (Inr \<lparr>Contents = None, IsTruncated = truncated, NextContinuationToken = next\<rparr> # rest)
           s3BucketName (primary # fallbacks) paths =
         Some (Inl (CannotFoundObject s3BucketName),
               [\<lparr>Bucket = s3BucketName, ContinuationToken = None\<rparr>])"
    by (simp add: getCacheEntryS3_def)
next
  let ?none = "\<lparr>Contents = None, IsTruncated = truncated, NextContinuationToken = next\<rparr>"
  assume quiet: "\<forall>r\<in>set quiet. pageTruncated r \<and> pageObjects r = []"
  then have q: "\<forall>r\<in>set quiet. pageTruncated r \<and>
                  foundLastModified (index0 (primary # fallbacks)) (pageObjects r) = None"
    by (simp add: foundLastModified_def)
  from listLoop_continue [OF q, of srt toString s3BucketName "primary # fallbacks"
      "Inr ?none # rest" None None "[]" "[]"]
  obtain pt tok sent' where
    go: "listLoop srt toString s3BucketName (primary # fallbacks)
           (index0 (primary # fallbacks)) (quiet @ Inr ?none # rest) None None [] [] =
         listLoop srt toString s3BucketName (primary # fallbacks)
           (index0 (primary # fallbacks)) (Inr ?none # rest) pt tok
           ([] @ concat (map pageObjects quiet)) sent'"
    and len: "length sent' = length ([] :: ListObjectsV2CommandInput list) + length quiet"
    by blast
  from go len quiet
  show "\<exists>sent. getCacheEntryS3 srt toString (quiet @ Inr ?none # rest) s3BucketName
                  (primary # fallbacks) paths =
               Some (Inl (CannotFoundObject s3BucketName), sent) \<and>
               length sent = length quiet + 1"
    by (simp add: getCacheEntryS3_def Let_def)
qed

text \<open>
  The theorem on two pages of objects that match neither \<open>k-v2\<close> nor the prefix \<open>k-\<close>, on
  an empty bucket, and on a truncated page with an empty \<^verbatim>\<open>Contents\<close> followed by a
  response without \<^verbatim>\<open>Contents\<close>.
\<close>

theorem getCacheEntryS3_no_match_witness:
  "(\<exists>sent. getCacheEntryS3 insertionSort (\<lambda>t. ''date'')
       ([Inr \<lparr>Contents = Some [\<lparr>Key = Some ''a'', LastModified = Some 1\<rparr>],
              IsTruncated = Some True, NextContinuationToken = Some ''p2''\<rparr>] @
        Inr \<lparr>Contents = Some [\<lparr>Key = Some ''k'', LastModified = Some 2\<rparr>],
             IsTruncated = None, NextContinuationToken = None\<rparr> # [])
       ''bucket'' (''k-v2'' # [''k-'']) [] = Some (Inr None, sent) \<and> length sent = 2) \<and>
   getCacheEntryS3 insertionSort (\<lambda>t. ''date'')
     (Inr \<lparr>Contents = None, IsTruncated = None, NextContinuationToken = None\<rparr> # [])
     ''bucket'' (''k-v2'' # [''k-'']) [] =
   Some (Inl (CannotFoundObject ''bucket''), [\<lparr>Bucket = ''bucket'', ContinuationToken = None\<rparr>]) \<and>
   (\<exists>sent. getCacheEntryS3 insertionSort (\<lambda>t. ''date'')
       ([Inr \<lparr>Contents = Some [], IsTruncated = Some True,
              NextContinuationToken = Some ''p2''\<rparr>] @
        Inr \<lparr>Contents = None, IsTruncated = None, NextContinuationToken = None\<rparr> # [])
       ''bucket'' (''k-v2'' # [''k-'']) [] = Some (Inl (CannotFoundObject ''bucket''), sent) \<and>
     length sent = 2)"
proof -
  let ?q1 = "Inr \<lparr>Contents = Some [], IsTruncated = Some True,
              NextContinuationToken = Some ''p2''\<rparr>
            :: string + ListObjectsV2CommandOutput"
  have h4: "\<forall>r\<in>set [?q1]. pageTruncated r \<and> pageObjects r = []"
    by (simp add: pageTruncated_def pageObjects_def)
  let ?p1 = "Inr \<lparr>Contents = Some [\<lparr>Key = Some ''a'', LastModified = Some (1::int)\<rparr>],
              IsTruncated = Some True, NextContinuationToken = Some ''p2''\<rparr>
            :: string + ListObjectsV2CommandOutput"
  let ?p2 = "\<lparr>Contents = Some [\<lparr>Key = Some ''k'', LastModified = Some (2::int)\<rparr>],
             IsTruncated = None, NextContinuationToken = None\<rparr>"
  have h1: "\<forall>r\<in>set [?p1]. pageTruncated r"
    by (simp add: pageTruncated_def)
  have h2: "(Contents ?p2 \<noteq> None \<and> IsTruncated ?p2 \<noteq> Some True) \<or>
            (Contents ?p2 = None \<and> concat (map pageObjects [?p1]) \<noteq> [])"
    by simp
  have h3: "\<forall>c\<in>set (concat (map pageObjects ([?p1] @ [Inr ?p2]))).
              Key c \<noteq> Some ''k-v2'' \<and> (\<forall>k\<in>set [''k-'']. \<not> startsWith (Key c) k)"
    by (simp add: pageObjects_def startsWith_def)
  from getCacheEntryS3_no_match [OF h1 h2 h3, where srt = insertionSort
      and toString = "\<lambda>t. ''date''" and rest = "[]" and s3BucketName = "''bucket''"
      and paths = "[]" and truncated = None and ?next = None and quiet = "[?q1]"] h4
  show ?thesis by (simp add: numeral_2_eq_2)
qed

text \<open>
  C5 as stated fails for a bucket without objects: the first response has no
  \<^verbatim>\<open>Contents\<close> and the lookup throws \<^verbatim>\<open>Cannot found object in bucket\<close>.
\<close>

theorem getCacheEntryS3_empty_bucket_counterexample:
  "getCacheEntryS3 insertionSort (\<lambda>t. ''date'')
     [Inr \<lparr>Contents = None, IsTruncated = Some False, NextContinuationToken = None\<rparr>]
     ''bucket'' [''k-v2'', ''k-''] [''node_modules''] =
   Some (Inl (CannotFoundObject ''bucket''), [\<lparr>Bucket = ''bucket'', ContinuationToken = None\<rparr>])"
  by (simp add: getCacheEntryS3_def)

text \<open>
  C10. (1) Every entry \<open>getCacheEntryS3\<close> returns is built from a listed object that has
  a \<open>LastModified\<close>: its key and its timestamp. (2) A page that ends the listing and
  whose first object under the primary key has no \<open>LastModified\<close> gives no primary
  match: the result is the fallback search over everything listed. (3) When the
  listing is drained and the entry the fallback search selects has no \<open>LastModified\<close>,
  the lookup returns \<^verbatim>\<open>null\<close>.
\<close>

theorem getCacheEntryS3_requires_LastModified:
  "(getCacheEntryS3 srt toString s3 s3BucketName keys paths = Some (Inr (Some entry), sent) \<longrightarrow>
      (\<exists>c\<in>set (concat (map pageObjects s3)).
         \<exists>t. LastModified c = Some t \<and> cacheKey entry = Key c \<and>
             creationTime entry = Some (toString t))) \<and>
   ((\<forall>r\<in>set front. pageTruncated r \<and>
                    foundLastModified (Some primary) (pageObjects r) = None) \<and>
    Contents response = Some cs \<and>
    find (\<lambda>c. Key c = Some primary) cs = Some found \<and> LastModified found = None \<and>
    IsTruncated response \<noteq> Some True \<longrightarrow>
      (\<exists>sent'. getCacheEntryS3 srt toString (front @ Inr response # rest) s3BucketName
                  (primary # fallbacks) paths =
               Some (Inr (restoreKeyFallback srt toString (primary # fallbacks)
                            (concat (map pageObjects front) @ cs)), sent'))) \<and>
   ((\<forall>r\<in>set front. pageTruncated r \<and>
                    foundLastModified (Some primary) (pageObjects r) = None) \<and>
    Contents response = Some cs \<and> foundLastModified (Some primary) cs = None \<and>
    IsTruncated response \<noteq> Some True \<and>
    searchRestoreKeyEntry srt fallbacks (concat (map pageObjects front) @ cs) = Some best \<and>
    LastModified best = None \<longrightarrow>
      (\<exists>sent'. getCacheEntryS3 srt toString (front @ Inr response # rest) s3BucketName
                  (primary # fallbacks) paths = Some (Inr None, sent')))"
proof (intro conjI impI)
  assume "getCacheEntryS3 srt toString s3 s3BucketName keys paths = Some (Inr (Some entry), sent)"
  then have "listLoop srt toString s3BucketName keys (index0 keys) s3 None None [] [] =
               Some (Inr (Some entry), sent)"
    by (simp add: getCacheEntryS3_def)
  from listLoop_entry [OF this]
  show "\<exists>c\<in>set (concat (map pageObjects s3)).
          \<exists>t. LastModified c = Some t \<and> cacheKey entry = Key c \<and>
              creationTime entry = Some (toString t)"
    by simp
next
  have pk: "index0 (primary # fallbacks) = Some primary" by (simp add: index0_def)
  assume a: "(\<forall>r\<in>set front. pageTruncated r \<and>
                    foundLastModified (Some primary) (pageObjects r) = None) \<and>
    Contents response = Some cs \<and>
    find (\<lambda>c. Key c = Some primary) cs = Some found \<and> LastModified found = None \<and>
    IsTruncated response \<noteq> Some True"
  then have f: "\<forall>r\<in>set front. pageTruncated r \<and>
                 foundLastModified (index0 (primary # fallbacks)) (pageObjects r) = None"
    using pk by simp
  from a have objs: "pageObjects (Inr response) = cs" by (simp add: pageObjects_def)
  from a have "foundLastModified (Some primary) cs = None"
    by (simp add: foundLastModified_def)
  then have l: "foundLastModified (index0 (primary # fallbacks)) (pageObjects (Inr response)) = None"
    using pk objs by simp
  from a have e: "(Contents response \<noteq> None \<and> IsTruncated response \<noteq> Some True) \<or>
                  (Contents response = None \<and> concat (map pageObjects front) \<noteq> [])"
    by simp
  from getCacheEntryS3_drained [OF f l e, of srt toString rest s3BucketName paths]
  show "\<exists>sent'. getCacheEntryS3 srt toString (front @ Inr response # rest) s3BucketName
                  (primary # fallbacks) paths =
               Some (Inr (restoreKeyFallback srt toString (primary # fallbacks)
                            (concat (map pageObjects front) @ cs)), sent')"
    using objs by auto
next
  have pk: "index0 (primary # fallbacks) = Some primary" by (simp add: index0_def)
  assume a: "(\<forall>r\<in>set front. pageTruncated r \<and>
                    foundLastModified (Some primary) (pageObjects r) = None) \<and>
    Contents response = Some cs \<and> foundLastModified (Some primary) cs = None \<and>
    IsTruncated response \<noteq> Some True \<and>
    searchRestoreKeyEntry srt fallbacks (concat (map pageObjects front) @ cs) = Some best \<and>
    LastModified best = None"
  then have f: "\<forall>r\<in>set front. pageTruncated r \<and>
                 foundLastModified (index0 (primary # fallbacks)) (pageObjects r) = None"
    using pk by simp
  from a have objs: "pageObjects (Inr response) = cs" by (simp add: pageObjects_def)
  from a have l: "foundLastModified (index0 (primary # fallbacks)) (pageObjects (Inr response)) = None"
    using pk objs by simp
  from a have e: "(Contents response \<noteq> None \<and> IsTruncated response \<noteq> Some True) \<or>
                  (Contents response = None \<and> concat (map pageObjects front) \<noteq> [])"
    by simp
  from a have "restoreKeyFallback srt toString (primary # fallbacks)
                 (concat (map pageObjects front) @ cs) = None"
    by (simp add: restoreKeyFallback_def)
  with getCacheEntryS3_drained [OF f l e, of srt toString rest s3BucketName paths]
  show "\<exists>sent'. getCacheEntryS3 srt toString (front @ Inr response # rest) s3BucketName
                  (primary # fallbacks) paths = Some (Inr None, sent')"
    using objs by auto
qed

text \<open>
  The three parts at concrete listings: an entry returned through the fallback key
  \<open>k-\<close>; the primary key \<open>k-v2\<close> listed without timestamp, found again by the fallback
  key \<open>k-v\<close> through the older \<open>k-v1\<close>; and a single prefix match without timestamp.
\<close>

theorem getCacheEntryS3_requires_LastModified_witness:
  "(\<exists>c\<in>set [\<lparr>Key = Some ''k-v1'', LastModified = Some 4\<rparr>].
      \<exists>t. LastModified c = Some t \<and> Some ''k-v1'' = Key c \<and> Some ''date'' = Some ''date'') \<and>
   (\<exists>sent'. getCacheEntryS3 insertionSort (\<lambda>t. ''date'')
       ([] @ Inr \<lparr>Contents = Some [\<lparr>Key = Some ''k-v2'', LastModified = None\<rparr>,
                                    \<lparr>Key = Some ''k-v1'', LastModified = Some 4\<rparr>],
                   IsTruncated = None, NextContinuationToken = None\<rparr> # [])
       ''bucket'' (''k-v2'' # [''k-v1'']) [] =
     Some (Inr (Some \<lparr>cacheKey = Some ''k-v1'', scope = None, cacheVersion = None,
                       creationTime = Some ''date'',
                       archiveLocation = Some ''https://s3.amazonaws.com/''\<rparr>), sent')) \<and>
   (\<exists>sent'. getCacheEntryS3 insertionSort (\<lambda>t. ''date'')
       ([] @ Inr \<lparr>Contents = Some [\<lparr>Key = Some ''k-v1'', LastModified = None\<rparr>],
                   IsTruncated = None, NextContinuationToken = None\<rparr> # [])
       ''bucket'' (''k-v2'' # [''k-'']) [] = Some (Inr None, sent'))"
proof -
  let ?toString = "\<lambda>t::int. ''date''"
  let ?e = "\<lparr>cacheKey = Some ''k-v1'', scope = None, cacheVersion = None,
             creationTime = Some ''date'',
             archiveLocation = Some ''https://s3.amazonaws.com/''\<rparr>"
  let ?s3 = "[Inr \<lparr>Contents = Some [\<lparr>Key = Some ''k-v1'', LastModified = Some (4::int)\<rparr>],
                   IsTruncated = None, NextContinuationToken = None\<rparr>]
             :: (string + ListObjectsV2CommandOutput) list"
  let ?cs2 = "[\<lparr>Key = Some ''k-v2'', LastModified = None\<rparr>,
               \<lparr>Key = Some ''k-v1'', LastModified = Some (4::int)\<rparr>]"
  let ?r2 = "\<lparr>Contents = Some ?cs2, IsTruncated = None, NextContinuationToken = None\<rparr>"
  let ?cs3 = "[\<lparr>Key = Some ''k-v1'', LastModified = None :: int option\<rparr>]"
  let ?r3 = "\<lparr>Contents = Some ?cs3, IsTruncated = None, NextContinuationToken = None\<rparr>"
  have run: "getCacheEntryS3 insertionSort ?toString ?s3 ''bucket'' [''k-v2'', ''k-''] [] =
               Some (Inr (Some ?e), [\<lparr>Bucket = ''bucket'', ContinuationToken = None\<rparr>])"
    by (simp add: getCacheEntryS3_def index0_def foundLastModified_def restoreKeyFallback_def
        searchRestoreKeyEntry_one_def startsWith_def)
  have fb: "restoreKeyFallback insertionSort ?toString (''k-v2'' # [''k-v1'']) (concat (map pageObjects []) @ ?cs2)
              = Some ?e"
    by (simp add: restoreKeyFallback_def searchRestoreKeyEntry_one_def startsWith_def)
  have best: "searchRestoreKeyEntry insertionSort [''k-''] (concat (map pageObjects []) @ ?cs3) =
                Some \<lparr>Key = Some ''k-v1'', LastModified = None\<rparr>"
    by (simp add: searchRestoreKeyEntry_one_def startsWith_def)
  have p1: "\<exists>c\<in>set (concat (map pageObjects ?s3)).
              \<exists>t. LastModified c = Some t \<and> cacheKey ?e = Key c \<and>
                  creationTime ?e = Some (?toString t)"
    using getCacheEntryS3_requires_LastModified
      [of insertionSort ?toString ?s3 "''bucket''" "[''k-v2'', ''k-'']" "[]" ?e
          "[\<lparr>Bucket = ''bucket'', ContinuationToken = None\<rparr>]"] run
    by blast
  have p2: "\<exists>sent'. getCacheEntryS3 insertionSort ?toString ([] @ Inr ?r2 # []) ''bucket''
                      (''k-v2'' # [''k-v1'']) [] =
              Some (Inr (restoreKeyFallback insertionSort ?toString (''k-v2'' # [''k-v1''])
                           (concat (map pageObjects []) @ ?cs2)), sent')"
    using getCacheEntryS3_requires_LastModified
      [where srt = insertionSort and toString = ?toString and front = "[]" and primary = "''k-v2''" and response = ?r2
         and cs = ?cs2 and found = "\<lparr>Key = Some ''k-v2'', LastModified = None\<rparr>"
         and rest = "[]" and s3BucketName = "''bucket''" and fallbacks = "[''k-v1'']"
         and paths = "[]"]
    by simp
  have p3: "\<exists>sent'. getCacheEntryS3 insertionSort ?toString ([] @ Inr ?r3 # []) ''bucket''
                      (''k-v2'' # [''k-'']) [] = Some (Inr None, sent')"
    using getCacheEntryS3_requires_LastModified
      [where srt = insertionSort and toString = ?toString and front = "[]" and primary = "''k-v2''" and response = ?r3
         and cs = ?cs3 and rest = "[]" and s3BucketName = "''bucket''" and fallbacks = "[''k-'']"
         and paths = "[]" and best = "\<lparr>Key = Some ''k-v1'', LastModified = None\<rparr>"] best
    by (simp add: foundLastModified_def)
  from p1 p2 p3 fb show ?thesis
    by (simp add: pageObjects_def)
qed

section \<open>Properties of reserve and of the lookup in the cache service\<close>

text \<open>
  C9. When \<open>s3Options\<close> and a bucket name are supplied (a name is a non-empty string: the
  empty string is falsy), \<open>reserveCache\<close> answers with status 200 and a \<^verbatim>\<open>null\<close> result,
  and the state outside the process is the one it started from: no request is made,
  whatever the environment.
\<close>

theorem reserveCache_object_store:
  assumes "s3Options = Some config" and "s3BucketName = Some bucket" and "bucket \<noteq> []"
  shows "reserveCache env k paths options s3Options s3BucketName w =
           (Inr \<lparr>statusCode = 200, result = None, headers = []\<rparr>, w)"
  using assms by (simp add: reserveCache_def truthy_def)

text \<open>The theorem in the recording environment: nothing is recorded.\<close>

theorem reserveCache_object_store_witness:
  "reserveCache (recordingEnv False \<lparr>useAzureSdk = None, uploadConcurrency = Some 4,
        uploadChunkSize = Some 64\<rparr> 250 500)
     ''build-42'' [''node_modules''] None (Some \<lparr>region = Some ''eu'', endpoint = None\<rparr>)
     (Some ''bucket'') [] =
   (Inr \<lparr>statusCode = 200, result = None, headers = []\<rparr>, [])"
  using reserveCache_object_store [of "Some \<lparr>region = Some ''eu'', endpoint = None\<rparr>"
      "\<lparr>region = Some ''eu'', endpoint = None\<rparr>" "Some ''bucket''" "''bucket''"]
  by simp

text \<open>
  C7 (as amended). Let the lookup go to the cache service and the wrapped request
  answer with \<open>response\<close>. On status 204 the lookup returns \<^verbatim>\<open>null\<close>; with debug output
  enabled it first lists the caches for diagnostics and returns \<^verbatim>\<open>null\<close> unless that
  request throws, in which case the lookup throws the same error. On any other
  status outside 2xx it throws. On a 2xx status with a body whose \<open>archiveLocation\<close> is
  missing or empty it throws. Every entry the lookup returns has a non-empty
  \<open>archiveLocation\<close>.
\<close>

theorem getCacheEntry_rest_status:
  assumes rest: "\<not> (s3Options \<noteq> None \<and> truthy s3BucketName)"
    and answer: "retryTypedResponse env ''getCacheEntry''
                   (atApiUrl env (lookupResource env keys (cacheVersionOf env paths options))
                      (getJson env)) w = (Inr response, w1)"
  shows "(statusCode response = 204 \<and> \<not> isDebug env \<longrightarrow>
            getCacheEntry env s3 keys paths options s3Options s3BucketName w =
            Some (Inr None, w1, [])) \<and>
         (statusCode response = 204 \<and> isDebug env \<longrightarrow>
            getCacheEntry env s3 keys paths options s3Options s3BucketName w =
            (case printCachesListForDiagnostics env (index0 keys)
                    (cacheVersionOf env paths options) w1 of
               (Inl e, w2) \<Rightarrow> Some (Inl e, w2, [])
             | (Inr u, w2) \<Rightarrow> Some (Inr None, w2, []))) \<and>
         (statusCode response \<noteq> 204 \<and> \<not> isSuccessStatusCode (Some (statusCode response)) \<longrightarrow>
            getCacheEntry env s3 keys paths options s3Options s3BucketName w =
            Some (Inl (CacheServiceRespondedWith (statusCode response)), w1, [])) \<and>
         (statusCode response \<noteq> 204 \<and> isSuccessStatusCode (Some (statusCode response)) \<and>
          (\<forall>entry. result response = Some (ArtifactCacheEntry_body entry) \<longrightarrow>
                   archiveLocation entry = None \<or> archiveLocation entry = Some []) \<longrightarrow>
            getCacheEntry env s3 keys paths options s3Options s3BucketName w =
            Some (Inl CacheNotFound, w1, [])) \<and>
         (\<forall>entry w' sent.
            getCacheEntry env s3 keys paths options s3Options s3BucketName w =
            Some (Inr (Some entry), w', sent) \<longrightarrow>
            (\<exists>url. archiveLocation entry = Some url \<and> url \<noteq> []))"
proof (intro conjI impI allI)
  assume "statusCode response = 204 \<and> \<not> isDebug env"
  with rest answer
  show "getCacheEntry env s3 keys paths options s3Options s3BucketName w = Some (Inr None, w1, [])"
    by (auto simp: getCacheEntry_def)
next
  assume "statusCode response = 204 \<and> isDebug env"
  with rest answer
  show "getCacheEntry env s3 keys paths options s3Options s3BucketName w =
            (case printCachesListForDiagnostics env (index0 keys)
                    (cacheVersionOf env paths options) w1 of
               (Inl e, w2) \<Rightarrow> Some (Inl e, w2, [])
             | (Inr u, w2) \<Rightarrow> Some (Inr None, w2, []))"
    by (auto simp: getCacheEntry_def)
next
  assume "statusCode response \<noteq> 204 \<and> \<not> isSuccessStatusCode (Some (statusCode response))"
  with rest answer
  show "getCacheEntry env s3 keys paths options s3Options s3BucketName w =
            Some (Inl (CacheServiceRespondedWith (statusCode response)), w1, [])"
    by (auto simp: getCacheEntry_def)
next
  assume "statusCode response \<noteq> 204 \<and> isSuccessStatusCode (Some (statusCode response)) \<and>
          (\<forall>entry. result response = Some (ArtifactCacheEntry_body entry) \<longrightarrow>
                   archiveLocation entry = None \<or> archiveLocation entry = Some [])"
  with rest answer
  show "getCacheEntry env s3 keys paths options s3Options s3BucketName w =
            Some (Inl CacheNotFound, w1, [])"
    by (auto simp: getCacheEntry_def truthy_def split: option.splits json.splits)
next
  fix entry w' sent
  assume "getCacheEntry env s3 keys paths options s3Options s3BucketName w =
            Some (Inr (Some entry), w', sent)"
  with rest answer
  show "\<exists>url. archiveLocation entry = Some url \<and> url \<noteq> []"
    by (auto simp: getCacheEntry_def truthy_def
        split: option.splits json.splits if_splits prod.splits sum.splits)
qed

text \<open>The theorem for a service that answers 204, 404, and 200 without a body.\<close>

theorem getCacheEntry_rest_status_witness:
  "getCacheEntry (recordingEnv False \<lparr>useAzureSdk = None, uploadConcurrency = Some 4,
        uploadChunkSize = Some 64\<rparr> 250 204) [] [''k-v2'', ''k-''] [''node_modules''] None None None [] =
   Some (Inr None, [GET ''https://cache/_apis/artifactcache/cache?keys=k-v2,k-&version=node_modules|''], []) \<and>
   getCacheEntry (recordingEnv False \<lparr>useAzureSdk = None, uploadConcurrency = Some 4,
        uploadChunkSize = Some 64\<rparr> 250 404) [] [''k-v2'', ''k-''] [''node_modules''] None None None [] =
   Some (Inl (CacheServiceRespondedWith 404),
         [GET ''https://cache/_apis/artifactcache/cache?keys=k-v2,k-&version=node_modules|''], []) \<and>
   getCacheEntry (recordingEnv False \<lparr>useAzureSdk = None, uploadConcurrency = Some 4,
        uploadChunkSize = Some 64\<rparr> 250 200) [] [''k-v2'', ''k-''] [''node_modules''] None None None [] =
   Some (Inl CacheNotFound,
         [GET ''https://cache/_apis/artifactcache/cache?keys=k-v2,k-&version=node_modules|''], [])"
proof -
  let ?uo = "\<lparr>useAzureSdk = None, uploadConcurrency = Some 4, uploadChunkSize = Some 64\<rparr>"
  let ?url = "''https://cache/_apis/artifactcache/cache?keys=k-v2,k-&version=node_modules|''"
  have rest: "\<not> ((None :: S3ClientConfig option) \<noteq> None \<and> truthy None)" by simp
  have answer: "retryTypedResponse (recordingEnv False ?uo 250 c) ''getCacheEntry''
          (atApiUrl (recordingEnv False ?uo 250 c)
             (lookupResource (recordingEnv False ?uo 250 c) [''k-v2'', ''k-'']
                (cacheVersionOf (recordingEnv False ?uo 250 c) [''node_modules''] None))
             (getJson (recordingEnv False ?uo 250 c))) [] =
        (Inr \<lparr>statusCode = c, result = None, headers = []\<rparr>, [GET ?url])" for c
    by (simp add: recordingEnv_def atApiUrl_def getCacheApiUrl_def lookupResource_def
        cacheVersionOf_def)
  have debug: "\<not> isDebug (recordingEnv False ?uo 250 c)" for c
    by (simp add: recordingEnv_def)
  from getCacheEntry_rest_status [OF rest answer [of 204], of "[]"]
       getCacheEntry_rest_status [OF rest answer [of 404], of "[]"]
       getCacheEntry_rest_status [OF rest answer [of 200], of "[]"] debug
  show ?thesis by (simp add: isSuccessStatusCode_def)
qed

text \<open>
  C7 as stated fails on status 204 when debug output is enabled and the diagnostic
  listing request fails: the lookup throws.
\<close>

theorem getCacheEntry_rest_204_counterexample:
  "getCacheEntry
     ((recordingEnv True \<lparr>useAzureSdk = None, uploadConcurrency = Some 4,
         uploadChunkSize = Some 64\<rparr> 250 204)
      \<lparr>retryTypedResponse :=
         (\<lambda>name method w.
            if name = ''listCache'' then (Inl (Thrown ''listCache failed''), w) else method w)\<rparr>)
     [] [''k-v2'', ''k-''] [''node_modules''] None None None [] =
   Some (Inl (Thrown ''listCache failed''),
         [GET ''https://cache/_apis/artifactcache/cache?keys=k-v2,k-&version=node_modules|''], [])"
  by (simp add: getCacheEntry_def recordingEnv_def atApiUrl_def getCacheApiUrl_def
      lookupResource_def cacheVersionOf_def printCachesListForDiagnostics_def truthy_def)

lemma atApiUrl_getJson_update:
  assumes "\<forall>w. g (apiUrl env resource) w = getJson env (apiUrl env resource) w"
  shows "atApiUrl (env\<lparr>getJson := g\<rparr>) resource g = atApiUrl env resource (getJson env)"
  using assms by (auto simp: atApiUrl_def getCacheApiUrl_def apiUrl_def Let_def fun_eq_iff)

lemma atApiUrl_apiUrl:
  "getCacheServiceURL env \<noteq> [] \<Longrightarrow> atApiUrl env resource call w = call (apiUrl env resource) w"
  by (simp add: atApiUrl_def getCacheApiUrl_def apiUrl_def)

text \<open>
  C4 (as amended). In the object store the version is no part of a lookup: with
  \<open>s3Options\<close> and a non-empty bucket name, lookups that differ in the path list and the
  options (compression method, cross-OS flag) return the same result. Towards the
  cache service (no \<open>s3Options\<close>, or no bucket name) the version is part of what is
  asked. The result of the lookup depends on the service only through its answers at
  the URL that carries the keys and the version and at the URL of the diagnostic
  listing. When the retry wrapper runs the request once, the service URL is not
  empty, and the service answers the URL of one version with 200 and an entry that
  has an \<open>archiveLocation\<close>, and the URL of the other version with 204, then the lookup
  with the first version returns that entry, the lookup with the other version
  returns no entry, and the two versions differ. Lookups with the same keys and
  different versions ask for different URLs.
\<close>

theorem getCacheEntry_version:
  assumes "s3Options = Some config" and "s3BucketName = Some bucket" and "bucket \<noteq> []"
    and rest: "\<not> (restOptions \<noteq> None \<and> truthy restBucket)"
  shows "getCacheEntry env s3 keys paths options s3Options s3BucketName w =
           getCacheEntry env s3 keys paths' options' s3Options s3BucketName w \<and>
         (\<forall>g. (\<forall>w'. g (apiUrl env (lookupResource env keys (cacheVersionOf env paths options))) w' =
                     getJson env
                       (apiUrl env (lookupResource env keys (cacheVersionOf env paths options))) w') \<and>
              (\<forall>w'. g (apiUrl env (diagnosticsResource env (index0 keys))) w' =
                     getJson env (apiUrl env (diagnosticsResource env (index0 keys))) w') \<longrightarrow>
              getCacheEntry (env\<lparr>getJson := g\<rparr>) s3 keys paths options restOptions restBucket w =
              getCacheEntry env s3 keys paths options restOptions restBucket w) \<and>
         (retryTypedResponse env = (\<lambda>name method. method) \<and> getCacheServiceURL env \<noteq> [] \<and>
          getJson env (apiUrl env (lookupResource env keys (cacheVersionOf env paths options))) w =
            (Inr \<lparr>statusCode = 200, result = Some (ArtifactCacheEntry_body entry),
                  headers = hs\<rparr>, w1) \<and>
          truthy (archiveLocation entry) \<and>
          getJson env (apiUrl env (lookupResource env keys (cacheVersionOf env paths' options'))) w =
            (Inr \<lparr>statusCode = 204, result = None, headers = hs'\<rparr>, w2) \<longrightarrow>
            getCacheEntry env s3 keys paths options restOptions restBucket w =
              Some (Inr (Some entry), w1, []) \<and>
            (\<forall>found w3 sent. getCacheEntry env s3 keys paths' options' restOptions restBucket w \<noteq>
                             Some (Inr (Some found), w3, sent)) \<and>
            cacheVersionOf env paths options \<noteq> cacheVersionOf env paths' options') \<and>
         (cacheVersionOf env paths options \<noteq> cacheVersionOf env paths' options' \<longrightarrow>
            apiUrl env (lookupResource env keys (cacheVersionOf env paths options)) \<noteq>
            apiUrl env (lookupResource env keys (cacheVersionOf env paths' options')))"
proof (intro conjI allI impI)
  from assms(1-3)
  show "getCacheEntry env s3 keys paths options s3Options s3BucketName w =
           getCacheEntry env s3 keys paths' options' s3Options s3BucketName w"
    by (simp add: getCacheEntry_def truthy_def getCacheEntryS3_def)
next
  fix g
  assume agree: "(\<forall>w'. g (apiUrl env (lookupResource env keys (cacheVersionOf env paths options))) w' =
                     getJson env
                       (apiUrl env (lookupResource env keys (cacheVersionOf env paths options))) w') \<and>
              (\<forall>w'. g (apiUrl env (diagnosticsResource env (index0 keys))) w' =
                     getJson env (apiUrl env (diagnosticsResource env (index0 keys))) w')"
  let ?env = "env\<lparr>getJson := g\<rparr>"
  have v: "cacheVersionOf ?env paths options = cacheVersionOf env paths options"
    by (simp add: cacheVersionOf_def)
  have r: "lookupResource ?env keys v = lookupResource env keys v" for v
    by (simp add: lookupResource_def)
  have a1: "atApiUrl ?env (lookupResource env keys (cacheVersionOf env paths options)) g =
            atApiUrl env (lookupResource env keys (cacheVersionOf env paths options)) (getJson env)"
    using agree by (intro atApiUrl_getJson_update) simp
  have a2: "atApiUrl ?env (diagnosticsResource env (index0 keys)) g =
            atApiUrl env (diagnosticsResource env (index0 keys)) (getJson env)"
    using agree by (intro atApiUrl_getJson_update) simp
  have d: "printCachesListForDiagnostics ?env (index0 keys) v' w' =
           printCachesListForDiagnostics env (index0 keys) v' w'" for v' w'
    using a2 by (simp add: printCachesListForDiagnostics_def diagnosticsResource_def)
  from rest show "getCacheEntry ?env s3 keys paths options restOptions restBucket w =
              getCacheEntry env s3 keys paths options restOptions restBucket w"
    by (auto simp: getCacheEntry_def Let_def v r a1 d split: prod.splits sum.splits)
next
  assume h: "retryTypedResponse env = (\<lambda>name method. method) \<and> getCacheServiceURL env \<noteq> [] \<and>
          getJson env (apiUrl env (lookupResource env keys (cacheVersionOf env paths options))) w =
            (Inr \<lparr>statusCode = 200, result = Some (ArtifactCacheEntry_body entry),
                  headers = hs\<rparr>, w1) \<and>
          truthy (archiveLocation entry) \<and>
          getJson env (apiUrl env (lookupResource env keys (cacheVersionOf env paths' options'))) w =
            (Inr \<lparr>statusCode = 204, result = None, headers = hs'\<rparr>, w2)"
  with rest show "getCacheEntry env s3 keys paths options restOptions restBucket w =
              Some (Inr (Some entry), w1, [])"
    by (auto simp: getCacheEntry_def atApiUrl_apiUrl isSuccessStatusCode_def)
  from h rest show "getCacheEntry env s3 keys paths' options' restOptions restBucket w \<noteq>
                     Some (Inr (Some found), w3, sent)" for found w3 sent
    by (auto simp: getCacheEntry_def atApiUrl_apiUrl split: prod.splits sum.splits)
  from h show "cacheVersionOf env paths options \<noteq> cacheVersionOf env paths' options'"
    by auto
next
  assume "cacheVersionOf env paths options \<noteq> cacheVersionOf env paths' options'"
  then show "apiUrl env (lookupResource env keys (cacheVersionOf env paths options)) \<noteq>
            apiUrl env (lookupResource env keys (cacheVersionOf env paths' options'))"
    by (simp add: lookupResource_def apiUrl_def)
qed

text \<open>
  The theorem for the path lists \<open>node_modules\<close> and \<open>vendor\<close> (the second with a
  compression method), whose versions differ, and a service that holds an entry under
  the keys \<open>k-v2\<close> and the version of \<open>node_modules\<close> only.
\<close>

theorem getCacheEntry_version_witness:
  "getCacheEntry (recordingEnv False \<lparr>useAzureSdk = None, uploadConcurrency = Some 4,
        uploadChunkSize = Some 64\<rparr> 250 204)
     [Inr \<lparr>Contents = Some [\<lparr>Key = Some ''k-v2'', LastModified = Some 7\<rparr>],
           IsTruncated = None, NextContinuationToken = None\<rparr>]
     [''k-v2''] [''node_modules''] None (Some \<lparr>region = None, endpoint = None\<rparr>) (Some ''bucket'') [] =
   getCacheEntry (recordingEnv False \<lparr>useAzureSdk = None, uploadConcurrency = Some 4,
        uploadChunkSize = Some 64\<rparr> 250 204)
     [Inr \<lparr>Contents = Some [\<lparr>Key = Some ''k-v2'', LastModified = Some 7\<rparr>],
           IsTruncated = None, NextContinuationToken = None\<rparr>]
     [''k-v2''] [''vendor''] (Some \<lparr>compressionMethod = Some ''zstd'', enableCrossOsArchive = None,
        cacheSize = None\<rparr>) (Some \<lparr>region = None, endpoint = None\<rparr>) (Some ''bucket'') [] \<and>
   getCacheEntry
     ((recordingEnv False \<lparr>useAzureSdk = None, uploadConcurrency = Some 4,
         uploadChunkSize = Some 64\<rparr> 250 204)
      \<lparr>getJson :=
         (\<lambda>url w.
            if url = ''https://cache/_apis/artifactcache/cache?keys=k-v2&version=node_modules|''
            then (Inr \<lparr>statusCode = 200,
                       result = Some (ArtifactCacheEntry_body
                                 \<lparr>cacheKey = Some ''k-v2'', scope = None, cacheVersion = None,
                                  creationTime = None, archiveLocation = Some ''https://blob/1''\<rparr>),
                       headers = []\<rparr>, w @ [GET url])
            else (Inr \<lparr>statusCode = 204, result = None, headers = []\<rparr>, w @ [GET url]))\<rparr>)
     [] [''k-v2''] [''node_modules''] None None None [] =
   Some (Inr (Some \<lparr>cacheKey = Some ''k-v2'', scope = None, cacheVersion = None,
                    creationTime = None, archiveLocation = Some ''https://blob/1''\<rparr>),
         [GET ''https://cache/_apis/artifactcache/cache?keys=k-v2&version=node_modules|''], []) \<and>
   getCacheEntry
     ((recordingEnv False \<lparr>useAzureSdk = None, uploadConcurrency = Some 4,
         uploadChunkSize = Some 64\<rparr> 250 204)
      \<lparr>getJson :=
         (\<lambda>url w.
            if url = ''https://cache/_apis/artifactcache/cache?keys=k-v2&version=node_modules|''
            then (Inr \<lparr>statusCode = 200,
                       result = Some (ArtifactCacheEntry_body
                                 \<lparr>cacheKey = Some ''k-v2'', scope = None, cacheVersion = None,
                                  creationTime = None, archiveLocation = Some ''https://blob/1''\<rparr>),
                       headers = []\<rparr>, w @ [GET url])
            else (Inr \<lparr>statusCode = 204, result = None, headers = []\<rparr>, w @ [GET url]))\<rparr>)
     [] [''k-v2''] [''vendor''] None None None [] =
   Some (Inr None, [GET ''https://cache/_apis/artifactcache/cache?keys=k-v2&version=vendor|''], [])"
proof -
  let ?base = "recordingEnv False \<lparr>useAzureSdk = None, uploadConcurrency = Some 4,
        uploadChunkSize = Some 64\<rparr> 250 204"
  let ?entry = "\<lparr>cacheKey = Some ''k-v2'', scope = None, cacheVersion = None,
                 creationTime = None, archiveLocation = Some ''https://blob/1''\<rparr>"
  let ?U = "''https://cache/_apis/artifactcache/cache?keys=k-v2&version=node_modules|''"
  let ?V = "''https://cache/_apis/artifactcache/cache?keys=k-v2&version=vendor|''"
  let ?service = "\<lambda>url w.
            if url = ?U
            then (Inr \<lparr>statusCode = 200, result = Some (ArtifactCacheEntry_body ?entry),
                       headers = []\<rparr>, w @ [GET url])
            else (Inr \<lparr>statusCode = 204, result = None, headers = []\<rparr>, w @ [GET url])"
  let ?env = "?base\<lparr>getJson := ?service\<rparr>"
  have urls: "apiUrl ?env (lookupResource ?env [''k-v2''] (cacheVersionOf ?env [''node_modules''] None)) = ?U"
    "apiUrl ?env (lookupResource ?env [''k-v2''] (cacheVersionOf ?env [''vendor''] None)) = ?V"
    by (simp_all add: apiUrl_def lookupResource_def cacheVersionOf_def recordingEnv_def)
  have h: "(''bucket'' :: string) \<noteq> []" by simp
  have rest: "\<not> ((None :: S3ClientConfig option) \<noteq> None \<and> truthy None)" by simp
  have s3: "getCacheEntry ?base
     [Inr \<lparr>Contents = Some [\<lparr>Key = Some ''k-v2'', LastModified = Some 7\<rparr>],
           IsTruncated = None, NextContinuationToken = None\<rparr>]
     [''k-v2''] [''node_modules''] None (Some \<lparr>region = None, endpoint = None\<rparr>) (Some ''bucket'') [] =
   getCacheEntry ?base
     [Inr \<lparr>Contents = Some [\<lparr>Key = Some ''k-v2'', LastModified = Some 7\<rparr>],
           IsTruncated = None, NextContinuationToken = None\<rparr>]
     [''k-v2''] [''vendor''] (Some \<lparr>compressionMethod = Some ''zstd'', enableCrossOsArchive = None,
        cacheSize = None\<rparr>) (Some \<lparr>region = None, endpoint = None\<rparr>) (Some ''bucket'') []"
    by (rule getCacheEntry_version [OF refl refl h rest, THEN conjunct1])
  have pass: "retryTypedResponse ?env = (\<lambda>name method. method)"
    and base: "getCacheServiceURL ?env \<noteq> []"
    by (simp_all add: recordingEnv_def)
  have stored: "getJson ?env ?U [] =
      (Inr \<lparr>statusCode = 200, result = Some (ArtifactCacheEntry_body ?entry), headers = []\<rparr>,
       [GET ?U])"
    and other: "getJson ?env ?V [] =
      (Inr \<lparr>statusCode = 204, result = None, headers = []\<rparr>, [GET ?V])"
    and loc: "truthy (archiveLocation ?entry)"
    by (simp_all add: truthy_def)
  from getCacheEntry_version [OF refl refl h rest, where env = ?env and keys = "[''k-v2'']"
      and paths = "[''node_modules'']" and options = None and paths' = "[''vendor'']"
      and options' = None and w = "[]" and entry = ?entry and hs = "[]" and hs' = "[]"
      and ?w1.0 = "[GET ?U]" and ?w2.0 = "[GET ?V]" and ?s3.0 = "[]"]
    pass base stored other loc
  have found: "getCacheEntry ?env [] [''k-v2''] [''node_modules''] None None None [] =
                 Some (Inr (Some ?entry), [GET ?U], [])"
    unfolding urls by blast
  have miss: "getCacheEntry ?env [] [''k-v2''] [''vendor''] None None None [] =
                Some (Inr None, [GET ?V], [])"
    by (simp add: getCacheEntry_def recordingEnv_def atApiUrl_def getCacheApiUrl_def
        lookupResource_def cacheVersionOf_def truthy_def)
  from s3 found miss show ?thesis by simp
qed

text \<open>
  C4 as stated fails in the object store: the object stored under the key \<open>k-v2\<close> is
  returned to two lookups whose versions differ.
\<close>

theorem getCacheEntry_version_counterexample:
  "getCacheEntry (recordingEnv False \<lparr>useAzureSdk = None, uploadConcurrency = Some 4,
        uploadChunkSize = Some 64\<rparr> 250 204)
     [Inr \<lparr>Contents = Some [\<lparr>Key = Some ''k-v2'', LastModified = Some 7\<rparr>],
           IsTruncated = None, NextContinuationToken = None\<rparr>]
     [''k-v2''] [''node_modules''] None (Some \<lparr>region = None, endpoint = None\<rparr>) (Some ''bucket'') [] =
   Some (Inr (Some \<lparr>cacheKey = Some ''k-v2'', scope = None, cacheVersion = None,
                    creationTime = Some ''date'',
                    archiveLocation = Some ''https://s3.amazonaws.com/''\<rparr>), [],
         [\<lparr>Bucket = ''bucket'', ContinuationToken = None\<rparr>]) \<and>
   getCacheEntry (recordingEnv False \<lparr>useAzureSdk = None, uploadConcurrency = Some 4,
        uploadChunkSize = Some 64\<rparr> 250 204)
     [Inr \<lparr>Contents = Some [\<lparr>Key = Some ''k-v2'', LastModified = Some 7\<rparr>],
           IsTruncated = None, NextContinuationToken = None\<rparr>]
     [''k-v2''] [''vendor''] None (Some \<lparr>region = None, endpoint = None\<rparr>) (Some ''bucket'') [] =
   Some (Inr (Some \<lparr>cacheKey = Some ''k-v2'', scope = None, cacheVersion = None,
                    creationTime = Some ''date'',
                    archiveLocation = Some ''https://s3.amazonaws.com/''\<rparr>), [],
         [\<lparr>Bucket = ''bucket'', ContinuationToken = None\<rparr>]) \<and>
   cacheVersionOf (recordingEnv False \<lparr>useAzureSdk = None, uploadConcurrency = Some 4,
        uploadChunkSize = Some 64\<rparr> 250 204) [''node_modules''] None \<noteq>
   cacheVersionOf (recordingEnv False \<lparr>useAzureSdk = None, uploadConcurrency = Some 4,
        uploadChunkSize = Some 64\<rparr> 250 204) [''vendor''] None"
  by (simp add: getCacheEntry_def truthy_def getCacheEntryS3_def index0_def foundLastModified_def
      recordingEnv_def cacheVersionOf_def)

section \<open>Properties of the chunked upload\<close>




































section \<open>Properties of saving\<close>


text \<open>
  C3, at the input where the code departs from it. With \<open>s3Options\<close> given and no bucket
  name, \<open>uploadFile\<close> takes the chunked path to the cache service (two \<^verbatim>\<open>PATCH\<close> requests
  for 100 bytes in chunks of 64), the service answers 200 to both, and \<open>saveCache\<close>
  reports success without the commit request. Without \<open>s3Options\<close> the same upload is
  followed by the commit.
\<close>

theorem saveCache_commit_skipped_without_bucket:
  "saveCache (recordingEnv False \<lparr>useAzureSdk = None, uploadConcurrency = Some 1,
        uploadChunkSize = Some 64\<rparr> 100 200) [0, 0] 7 ''cache.tzst'' ''k-v2'' None None
     (Some \<lparr>region = Some ''eu'', endpoint = None\<rparr>) None [] =
   (Some (Inr ()),
    [PATCH ''https://cache/_apis/artifactcache/caches/7'' (0, 63)
       [(''Content-Type'', ''application/octet-stream''), (''Content-Range'', ''bytes 0-63/*'')],
     PATCH ''https://cache/_apis/artifactcache/caches/7'' (64, 99)
       [(''Content-Type'', ''application/octet-stream''), (''Content-Range'', ''bytes 64-99/*'')]]) \<and>
   saveCache (recordingEnv False \<lparr>useAzureSdk = None, uploadConcurrency = Some 1,
        uploadChunkSize = Some 64\<rparr> 100 200) [0, 0] 7 ''cache.tzst'' ''k-v2'' None None
     None None [] =
   (Some (Inr ()),
    [PATCH ''https://cache/_apis/artifactcache/caches/7'' (0, 63)
       [(''Content-Type'', ''application/octet-stream''), (''Content-Range'', ''bytes 0-63/*'')],
     PATCH ''https://cache/_apis/artifactcache/caches/7'' (64, 99)
       [(''Content-Type'', ''application/octet-stream''), (''Content-Range'', ''bytes 64-99/*'')],
     POST ''https://cache/_apis/artifactcache/caches/7'' (CommitCacheRequest 100)])"
  by code_simp

section \<open>Retry boundaries\<close>









end
